theory Spec2Isabelle
  imports Main "HOL-Library.Word"
begin

unbundle bit_operations_syntax

section \<open>Errors, panics and the network\<close>

text \<open>
  A Go string is a sequence of bytes; it is modelled as a \<open>string\<close> whose characters are
  the bytes.
\<close>

type_synonym bytes = string

text \<open>
  The sentinel errors of \<^verbatim>\<open>errors.go\<close>, the errors of the packages the client calls
  (\<open>NetError\<close> for the causes reported by package net, \<open>EOF\<close> and \<open>ErrNoProgress\<close> of
  package io, \<open>NumError\<close> of package strconv), and \<^verbatim>\<open>errors.Join(a, b)\<close>.
\<close>

datatype error =
    ErrEmptyAddresses
  | ErrStoreFailed
  | ErrWriteFailed
  | ErrReadFailed
  | ErrNotFound
  | ErrUnexpectedResponse
  | ErrInternal
  | ErrNoServers
  | NetError string
  | EOF
  | ErrNoProgress
  | NumError string
  | Join error error

text \<open>
  A run-time panic (nil dereference, index out of range, negative slice length) is not an
  error value: the call does not return.
\<close>

datatype 'a outcome = Panic | Return 'a

text \<open>
  The network is the environment of the client. It is a script of what each successive
  system call will answer, consumed in program order, together with the log of the calls
  made so far:
  \<^item> \<open>dials\<close>: for each \<^verbatim>\<open>net.Dial\<close>, \<open>None\<close> (connected) or the error;
  \<^item> \<open>writes\<close>: for each \<^verbatim>\<open>Write\<close> on a socket, \<open>None\<close> (all bytes written) or
    the number of bytes written before the error, and the error;
  \<^item> \<open>reads\<close>: for each \<^verbatim>\<open>Read\<close> on a socket, the error or the bytes that are
    available at that moment. A read into a buffer of \<open>k\<close> bytes takes at most \<open>k\<close> of
    them and leaves the others for the next read.
  An exhausted script answers with an error. Sockets are numbered as they are opened.
\<close>

datatype event =
    EvDial string
  | EvWrite nat bytes
  | EvRead nat nat
  | EvClose nat

record net =
  dials :: "error option list"
  writes :: "(nat \<times> error) option list"
  reads :: "(error + bytes) list"
  next_sock :: nat
  log :: "event list"

definition net_Dial :: "string \<Rightarrow> net \<Rightarrow> (error + nat) \<times> net" where
  "net_Dial address w =
     (let w1 = w\<lparr>log := log w @ [EvDial address]\<rparr> in
      case dials w of
        [] \<Rightarrow> (Inl (NetError ''connection refused''), w1)
      | Some e # ds \<Rightarrow> (Inl e, w1\<lparr>dials := ds\<rparr>)
      | None # ds \<Rightarrow> (Inr (next_sock w), w1\<lparr>dials := ds, next_sock := Suc (next_sock w)\<rparr>))"

definition sock_Write :: "nat \<Rightarrow> bytes \<Rightarrow> net \<Rightarrow> (nat \<times> error option) \<times> net" where
  "sock_Write s b w =
     (let w1 = w\<lparr>log := log w @ [EvWrite s b]\<rparr> in
      case writes w of
        [] \<Rightarrow> ((0, Some (NetError ''broken pipe'')), w1)
      | None # ws \<Rightarrow> ((length b, None), w1\<lparr>writes := ws\<rparr>)
      | Some (n, e) # ws \<Rightarrow> ((min n (length b), Some e), w1\<lparr>writes := ws\<rparr>))"

definition sock_Read :: "nat \<Rightarrow> nat \<Rightarrow> net \<Rightarrow> (bytes \<times> error option) \<times> net" where
  "sock_Read s k w =
     (let w1 = w\<lparr>log := log w @ [EvRead s k]\<rparr> in
      case reads w of
        [] \<Rightarrow> (([], Some EOF), w1)
      | Inl e # rs \<Rightarrow> (([], Some e), w1\<lparr>reads := rs\<rparr>)
      | Inr chunk # rs \<Rightarrow>
          ((take k chunk, None),
           w1\<lparr>reads := (if length chunk \<le> k then rs else Inr (drop k chunk) # rs)\<rparr>))"

definition sock_Close :: "nat \<Rightarrow> net \<Rightarrow> net" where
  "sock_Close s w = w\<lparr>log := log w @ [EvClose s]\<rparr>"

section \<open>conn.go\<close>

text \<open>
  \<^verbatim>\<open>type Conn struct { addr string; conn net.Conn }\<close>: the socket is an interface
  value, \<open>None\<close> when it is nil.
\<close>

record Conn =
  addr :: string
  conn :: "nat option"

definition NewConn :: "string \<Rightarrow> net \<Rightarrow> (error + Conn) \<times> net" where
  "NewConn address w =
     (case net_Dial address w of
        (Inl e, w1) \<Rightarrow> (Inl e, w1)
      | (Inr s, w1) \<Rightarrow> (Inr \<lparr>addr = address, conn = Some s\<rparr>, w1))"

definition connect :: "Conn \<Rightarrow> net \<Rightarrow> error option \<times> Conn \<times> net" where
  "connect c w =
     (if conn c \<noteq> None then (None, c, w)
      else case net_Dial (addr c) w of
             (Inl e, w1) \<Rightarrow> (Some e, c, w1)
           | (Inr s, w1) \<Rightarrow> (None, c\<lparr>conn := Some s\<rparr>, w1))"

definition reconnect :: "Conn \<Rightarrow> net \<Rightarrow> error option \<times> Conn \<times> net" where
  "reconnect c w =
     (case conn c of
        Some s \<Rightarrow> connect (c\<lparr>conn := None\<rparr>) (sock_Close s w)
      | None \<Rightarrow> connect c w)"

text \<open>
  \<^verbatim>\<open>c.conn.Write(b)\<close> is a method call on the interface value \<^verbatim>\<open>c.conn\<close>: it
  panics when the value is nil. The result is \<open>(n, err)\<close>, the connection and the network.
\<close>

definition Conn_Write ::
  "Conn \<Rightarrow> bytes \<Rightarrow> net \<Rightarrow> ((nat \<times> error option) \<times> Conn \<times> net) outcome" where
  "Conn_Write c b w =
     (case conn c of
        None \<Rightarrow> Panic
      | Some s \<Rightarrow>
          (case sock_Write s b w of
             ((n, None), w1) \<Rightarrow> Return ((n, None), c, w1)
           | ((n, Some e), w1) \<Rightarrow>
               (case reconnect c w1 of
                  (Some e2, c2, w2) \<Rightarrow> Return ((n, Some e2), c2, w2)
                | (None, c2, w2) \<Rightarrow>
                    (case conn c2 of
                       None \<Rightarrow> Panic
                     | Some s2 \<Rightarrow>
                         (case sock_Write s2 b w2 of
                            (r, w3) \<Rightarrow> Return (r, c2, w3))))))"

text \<open>
  \<^verbatim>\<open>Read(p)\<close> with \<open>k = len(p)\<close>: the result holds the bytes stored in \<open>p\<close> (their
  number is \<open>n\<close>) and the error.
\<close>

definition Conn_Read ::
  "Conn \<Rightarrow> nat \<Rightarrow> net \<Rightarrow> ((bytes \<times> error option) \<times> Conn \<times> net) outcome" where
  "Conn_Read c k w =
     (case conn c of
        None \<Rightarrow> Panic
      | Some s \<Rightarrow>
          (case sock_Read s k w of
             ((d, None), w1) \<Rightarrow> Return ((d, None), c, w1)
           | ((d, Some e), w1) \<Rightarrow>
               (case reconnect c w1 of
                  (Some e2, c2, w2) \<Rightarrow> Return ((d, Some e2), c2, w2)
                | (None, c2, w2) \<Rightarrow>
                    (case conn c2 of
                       None \<Rightarrow> Panic
                     | Some s2 \<Rightarrow>
                         (case sock_Read s2 k w2 of
                            (r, w3) \<Rightarrow> Return (r, c2, w3))))))"

section \<open>The Go packages the client calls\<close>

subsection \<open>strings\<close>

definition CR :: char where "CR = CHR 0x0D"
definition LF :: char where "LF = CHR 0x0A"
definition NUL :: char where "NUL = CHR 0x00"
definition CRLF :: bytes where "CRLF = [CR, LF]"

text \<open>
  \<^verbatim>\<open>strings.TrimSpace\<close> removes the leading and trailing white space of Unicode,
  read in UTF-8: the six ASCII spaces and the encodings of U+0085, U+00A0, U+1680,
  U+2000 to U+200A, U+2028, U+2029, U+202F, U+205F and U+3000.
\<close>

definition spaces :: "bytes list" where
  "spaces =
     map (\<lambda>c. [c]) [CHR 0x09, CHR 0x0A, CHR 0x0B, CHR 0x0C, CHR 0x0D, CHR 0x20]
     @ [[CHR 0xC2, CHR 0x85], [CHR 0xC2, CHR 0xA0], [CHR 0xE1, CHR 0x9A, CHR 0x80]]
     @ map (\<lambda>c. [CHR 0xE2, CHR 0x80, c])
         [CHR 0x80, CHR 0x81, CHR 0x82, CHR 0x83, CHR 0x84, CHR 0x85, CHR 0x86, CHR 0x87,
          CHR 0x88, CHR 0x89, CHR 0x8A, CHR 0xA8, CHR 0xA9, CHR 0xAF]
     @ [[CHR 0xE2, CHR 0x81, CHR 0x9F], [CHR 0xE3, CHR 0x80, CHR 0x80]]"

definition is_prefix :: "bytes \<Rightarrow> bytes \<Rightarrow> bool" where
  "is_prefix p s = (take (length p) s = p)"

fun TrimLeft_fuel :: "nat \<Rightarrow> bytes \<Rightarrow> bytes" where
  "TrimLeft_fuel 0 s = s"
| "TrimLeft_fuel (Suc n) s =
     (case find (\<lambda>p. is_prefix p s) spaces of
        None \<Rightarrow> s
      | Some p \<Rightarrow> TrimLeft_fuel n (drop (length p) s))"

text \<open>Every space is at least one byte long, so \<open>length s\<close> rounds are enough.\<close>

definition TrimLeft :: "bytes \<Rightarrow> bytes" where
  "TrimLeft s = TrimLeft_fuel (length s) s"

fun TrimRight_fuel :: "nat \<Rightarrow> bytes \<Rightarrow> bytes" where
  "TrimRight_fuel 0 s = s"
| "TrimRight_fuel (Suc n) s =
     (case find (\<lambda>p. is_prefix (rev p) (rev s)) spaces of
        None \<Rightarrow> s
      | Some p \<Rightarrow> TrimRight_fuel n (take (length s - length p) s))"

definition TrimRight :: "bytes \<Rightarrow> bytes" where
  "TrimRight s = TrimRight_fuel (length s) s"

definition TrimSpace :: "bytes \<Rightarrow> bytes" where
  "TrimSpace s = TrimRight (TrimLeft s)"

text \<open>\<^verbatim>\<open>strings.Split(s, sep)\<close> for a separator of one byte.\<close>

fun Split :: "bytes \<Rightarrow> char \<Rightarrow> bytes list" where
  "Split [] sep = [[]]"
| "Split (x # xs) sep =
     (if x = sep then [] # Split xs sep
      else case Split xs sep of
             [] \<Rightarrow> [[x]]
           | p # ps \<Rightarrow> (x # p) # ps)"

text \<open>\<^verbatim>\<open>strings.SplitN(s, sep, n)\<close> for \<open>n > 0\<close>: at most \<open>n\<close> parts, the last one
  holding the unsplit remainder.\<close>

fun SplitN :: "bytes \<Rightarrow> char \<Rightarrow> nat \<Rightarrow> bytes list" where
  "SplitN s sep 0 = []"
| "SplitN s sep (Suc 0) = [s]"
| "SplitN s sep (Suc (Suc n)) =
     (if sep \<in> set s
      then takeWhile (\<lambda>c. c \<noteq> sep) s # SplitN (tl (dropWhile (\<lambda>c. c \<noteq> sep) s)) sep (Suc n)
      else [s])"

subsection \<open>strconv and fmt\<close>

definition is_digit :: "char \<Rightarrow> bool" where
  "is_digit c = (48 \<le> (of_char c :: nat) \<and> (of_char c :: nat) \<le> 57)"

definition digit_value :: "char \<Rightarrow> nat" where
  "digit_value c = of_char c - 48"

definition dec_value :: "bytes \<Rightarrow> nat" where
  "dec_value ds = foldl (\<lambda>n c. 10 * n + digit_value c) 0 ds"

text \<open>
  \<^verbatim>\<open>strconv.Atoi\<close>, for the 64-bit \<^verbatim>\<open>int\<close> of the usual targets: an optional sign,
  then one or more decimal digits, within the range of \<^verbatim>\<open>int\<close>.
\<close>

definition Atoi :: "bytes \<Rightarrow> error + int" where
  "Atoi s =
     (let neg = (s \<noteq> [] \<and> hd s = CHR ''-'');
          ds = (if s \<noteq> [] \<and> (hd s = CHR ''-'' \<or> hd s = CHR ''+'') then tl s else s)
      in if ds = [] \<or> \<not> list_all is_digit ds then Inl (NumError ''invalid syntax'')
         else let n = (if neg then - int (dec_value ds) else int (dec_value ds))
              in if n < - (2 ^ 63) \<or> 2 ^ 63 \<le> n then Inl (NumError ''value out of range'')
                 else Inr n)"

text \<open>
  \<^verbatim>\<open>strconv.ParseUint(s, 10, 64)\<close>: one or more decimal digits, no sign. The value
  returned with a syntax error is 0, with a range error the largest \<^verbatim>\<open>uint64\<close>.
\<close>

definition ParseUint :: "bytes \<Rightarrow> 64 word \<times> error option" where
  "ParseUint s =
     (if s = [] \<or> \<not> list_all is_digit s then (0, Some (NumError ''invalid syntax''))
      else if 2 ^ 64 \<le> dec_value s then (- 1, Some (NumError ''value out of range''))
      else (of_nat (dec_value s), None))"

text \<open>
  \<^verbatim>\<open>fmt.Sscanf(resp, "%d", &newValue)\<close> with \<^verbatim>\<open>newValue uint64\<close>, whose error the
  callers drop: the longest prefix of decimal digits is the token; \<open>newValue\<close> is assigned
  only when the token is not empty and fits 64 bits, and keeps its zero value otherwise.
  The callers pass a string without leading white space, so there is none to skip.
\<close>

definition Sscanf_d :: "bytes \<Rightarrow> 64 word" where
  "Sscanf_d resp =
     (let tok = takeWhile is_digit resp
      in if tok = [] \<or> 2 ^ 64 \<le> dec_value tok then 0 else of_nat (dec_value tok))"

text \<open>The verb \<^verbatim>\<open>%d\<close> of \<^verbatim>\<open>fmt.Sprintf\<close>.\<close>

function dec :: "nat \<Rightarrow> bytes" where
  "dec n = (if n < 10 then [''0123456789'' ! n]
            else dec (n div 10) @ [''0123456789'' ! (n mod 10)])"
  by pat_completeness auto
termination
  by (relation "measure (\<lambda>n. n)") auto

definition Itoa :: "int \<Rightarrow> bytes" where
  "Itoa i = (if i < 0 then CHR ''-'' # dec (nat (- i)) else dec (nat i))"

subsection \<open>hash/crc32\<close>

text \<open>
  \<^verbatim>\<open>crc32.ChecksumIEEE\<close>: the reflected CRC-32 of polynomial \<open>0xEDB88320\<close>, register
  preset to all ones and complemented at the end.
\<close>

definition crc32_bit :: "32 word \<Rightarrow> 32 word" where
  "crc32_bit c = (if bit c 0 then drop_bit 1 c XOR 0xEDB88320 else drop_bit 1 c)"

definition crc32_byte :: "32 word \<Rightarrow> char \<Rightarrow> 32 word" where
  "crc32_byte c b = (crc32_bit ^^ 8) (c XOR of_char b)"

definition ChecksumIEEE :: "bytes \<Rightarrow> 32 word" where
  "ChecksumIEEE s = NOT (foldl crc32_byte 0xFFFFFFFF s)"

subsection \<open>bufio\<close>

record Reader =
  buf :: bytes
  rerr :: "error option"

definition defaultBufSize :: nat where
  "defaultBufSize = 4096"

definition NewReader :: Reader where
  "NewReader = \<lparr>buf = [], rerr = None\<rparr>"

text \<open>
  \<^verbatim>\<open>bufio.NewReader(rd)\<close> has a buffer of 4096 bytes. \<open>buf\<close> holds the bytes read from
  the connection and not yet consumed, \<open>rerr\<close> the pending read error. \<^verbatim>\<open>fill\<close>
  reads once into the free part of the buffer, again after an empty read, at most 100 times.
\<close>

fun fill_tries :: "nat \<Rightarrow> Reader \<Rightarrow> Conn \<Rightarrow> net \<Rightarrow> (Reader \<times> Conn \<times> net) outcome" where
  "fill_tries 0 r c w = Return (r\<lparr>rerr := Some ErrNoProgress\<rparr>, c, w)"
| "fill_tries (Suc i) r c w =
     (case Conn_Read c (defaultBufSize - length (buf r)) w of
        Panic \<Rightarrow> Panic
      | Return ((d, err), c1, w1) \<Rightarrow>
          (case err of
             Some e \<Rightarrow> Return (r\<lparr>buf := buf r @ d, rerr := Some e\<rparr>, c1, w1)
           | None \<Rightarrow>
               if d \<noteq> [] then Return (r\<lparr>buf := buf r @ d\<rparr>, c1, w1)
               else fill_tries i r c1 w1))"

definition fill :: "Reader \<Rightarrow> Conn \<Rightarrow> net \<Rightarrow> (Reader \<times> Conn \<times> net) outcome" where
  "fill r c w = fill_tries 100 r c w"

text \<open>
  The loops that read from the connection end because the script of reads is finite:
  \<open>rsize\<close> counts what is left of it.
\<close>

definition rsize :: "net \<Rightarrow> nat" where
  "rsize w = sum_list (map (\<lambda>x. case x of Inl e \<Rightarrow> 1 | Inr chunk \<Rightarrow> Suc (length chunk)) (reads w))"

lemma rsize_net_Dial: "net_Dial a w = (r, w1) \<Longrightarrow> rsize w1 = rsize w"
  by (auto simp: net_Dial_def rsize_def Let_def split: list.splits option.splits)

lemma rsize_sock_Close: "rsize (sock_Close s w) = rsize w"
  by (simp add: sock_Close_def rsize_def)

lemma rsize_sock_Read:
  "sock_Read s k w = ((d, err), w1) \<Longrightarrow> rsize w1 + length d \<le> rsize w"
  by (auto simp: sock_Read_def rsize_def Let_def split: list.splits sum.splits if_splits)

lemma sock_Read_error_empty:
  "sock_Read s k w = ((d, Some e), w1) \<Longrightarrow> d = []"
  by (auto simp: sock_Read_def Let_def split: list.splits sum.splits if_splits)

lemma rsize_reconnect: "reconnect c w = (r, c1, w1) \<Longrightarrow> rsize w1 = rsize w"
  by (auto simp: reconnect_def connect_def rsize_sock_Close
           split: option.splits prod.splits sum.splits if_splits dest: rsize_net_Dial)

lemma rsize_Conn_Read:
  "Conn_Read c k w = Return ((d, err), c1, w1) \<Longrightarrow> rsize w1 + length d \<le> rsize w"
  apply (auto simp: Conn_Read_def split: option.splits prod.splits)
  apply (auto dest!: rsize_sock_Read rsize_reconnect)
  done


lemma fill_tries_progress:
  "fill_tries i r c w = Return (r1, c1, w1) \<Longrightarrow> rerr r1 = None \<Longrightarrow> rsize w1 < rsize w"
proof (induction i arbitrary: c w)
  case 0
  then show ?case by auto
next
  case (Suc i)
  from Suc.prems obtain d err c2 w2 where
    rd: "Conn_Read c (defaultBufSize - length (buf r)) w = Return ((d, err), c2, w2)"
    by (auto split: outcome.splits)
  from rsize_Conn_Read [OF rd] have le: "rsize w2 + length d \<le> rsize w" .
  show ?case
  proof (cases err)
    case (Some e)
    with Suc.prems rd show ?thesis by auto
  next
    case None
    show ?thesis
    proof (cases "d = []")
      case True
      with Suc.prems rd None have "fill_tries i r c2 w2 = Return (r1, c1, w1)" by simp
      from Suc.IH [OF this Suc.prems(2)] le show ?thesis by simp
    next
      case False
      with Suc.prems rd None have "w1 = w2" by simp
      with le False show ?thesis by (cases d) auto
    qed
  qed
qed

lemma fill_tries_size:
  "fill_tries i r c w = Return (r1, c1, w1) \<Longrightarrow>
     rsize w1 + length (buf r1) \<le> rsize w + length (buf r)"
proof (induction i arbitrary: c w)
  case 0
  then show ?case by auto
next
  case (Suc i)
  from Suc.prems obtain d err c2 w2 where
    rd: "Conn_Read c (defaultBufSize - length (buf r)) w = Return ((d, err), c2, w2)"
    by (auto split: outcome.splits)
  from rsize_Conn_Read [OF rd] have le: "rsize w2 + length d \<le> rsize w" .
  show ?case
  proof (cases err)
    case (Some e)
    with Suc.prems rd le show ?thesis by auto
  next
    case None
    show ?thesis
    proof (cases "d = []")
      case True
      with Suc.prems rd None have "fill_tries i r c2 w2 = Return (r1, c1, w1)" by simp
      from Suc.IH [OF this] le show ?thesis by simp
    next
      case False
      with Suc.prems rd None le show ?thesis by auto
    qed
  qed
qed

text \<open>
  \<^verbatim>\<open>(*Reader).ReadString(delim)\<close>: the loop of \<^verbatim>\<open>ReadSlice\<close> within
  \<^verbatim>\<open>collectFragments\<close>. It returns the bytes up to and including the first
  \<open>delim\<close>, filling the buffer from the connection as often as needed; a full buffer
  without delimiter is moved to the result and emptied; a read error ends the loop with
  the bytes read so far.
\<close>

function ReadString_loop ::
  "char \<Rightarrow> bytes \<Rightarrow> Reader \<Rightarrow> Conn \<Rightarrow> net \<Rightarrow>
     ((bytes \<times> error option) \<times> Reader \<times> Conn \<times> net) outcome" where
  "ReadString_loop delim acc r c w =
     (if delim \<in> set (buf r) then
        Return ((acc @ takeWhile (\<lambda>x. x \<noteq> delim) (buf r) @ [delim], None),
                r\<lparr>buf := tl (dropWhile (\<lambda>x. x \<noteq> delim) (buf r))\<rparr>, c, w)
      else case rerr r of
        Some e \<Rightarrow> Return ((acc @ buf r, Some e), r\<lparr>buf := [], rerr := None\<rparr>, c, w)
      | None \<Rightarrow>
          if defaultBufSize \<le> length (buf r)
          then ReadString_loop delim (acc @ buf r) (r\<lparr>buf := []\<rparr>) c w
          else case fill r c w of
                 Panic \<Rightarrow> Panic
               | Return (r1, c1, w1) \<Rightarrow> ReadString_loop delim acc r1 c1 w1)"
  by pat_completeness auto
termination
proof (relation "measures [\<lambda>(delim, acc, r, c, w). if rerr r = None then 1 else 0,
                           \<lambda>(delim, acc, r, c, w). rsize w,
                           \<lambda>(delim, acc, r, c, w). length (buf r)]", goal_cases)
  case 1
  show ?case by simp
next
  case (2 delim acc r c w)
  then show ?case by (auto simp: defaultBufSize_def)
next
  case (3 delim acc r c w x2 r1 y c1 w1)
  then have "fill_tries 100 r c w = Return (r1, c1, w1)" by (simp add: fill_def)
  from fill_tries_progress [OF this] 3 show ?case by (auto split: if_splits)
qed

definition ReadString ::
  "Reader \<Rightarrow> char \<Rightarrow> Conn \<Rightarrow> net \<Rightarrow> ((bytes \<times> error option) \<times> Reader \<times> Conn \<times> net) outcome" where
  "ReadString r delim c w = ReadString_loop delim [] r c w"


lemma ReadString_loop_size:
  "ReadString_loop delim acc r c w = Return ((line, err), r1, c1, w1) \<Longrightarrow>
     length line + length (buf r1) + rsize w1 \<le> length acc + length (buf r) + rsize w"
proof (induction delim acc r c w rule: ReadString_loop.induct)
  case (1 delim acc r c w)
  show ?case
  proof (cases "delim \<in> set (buf r)")
    case True
    have "length (takeWhile (\<lambda>x. x \<noteq> delim) (buf r)) + length (dropWhile (\<lambda>x. x \<noteq> delim) (buf r))
            = length (buf r)"
      by (metis length_append takeWhile_dropWhile_id)
    moreover from True have "dropWhile (\<lambda>x. x \<noteq> delim) (buf r) \<noteq> []"
      by (simp add: dropWhile_eq_Nil_conv)
    ultimately have "Suc (length (takeWhile (\<lambda>x. x \<noteq> delim) (buf r))
                       + length (tl (dropWhile (\<lambda>x. x \<noteq> delim) (buf r)))) = length (buf r)"
      by (cases "dropWhile (\<lambda>x. x \<noteq> delim) (buf r)") auto
    with True "1.prems" show ?thesis by auto
  next
    case False
    note nd = this
    show ?thesis
    proof (cases "rerr r")
      case (Some e)
      with nd "1.prems" show ?thesis by auto
    next
      case None
      show ?thesis
      proof (cases "defaultBufSize \<le> length (buf r)")
        case True
        with nd None "1.prems" "1.IH"(1) show ?thesis by auto
      next
        case False
        with nd None "1.prems" obtain r2 c2 w2 where
          f: "fill r c w = Return (r2, c2, w2)"
          and rec: "ReadString_loop delim acc r2 c2 w2 = Return ((line, err), r1, c1, w1)"
          by (auto split: outcome.splits)
        from f have "rsize w2 + length (buf r2) \<le> rsize w + length (buf r)"
          by (simp add: fill_def fill_tries_size)
        moreover from "1.IH"(2) [OF nd None False f refl refl rec]
        have "length line + length (buf r1) + rsize w1 \<le> length acc + length (buf r2) + rsize w2" .
        ultimately show ?thesis by simp
      qed
    qed
  qed
qed

lemma ReadString_loop_line:
  "ReadString_loop delim acc r c w = Return ((line, None), r1, c1, w1) \<Longrightarrow>
     length acc < length line"
proof (induction delim acc r c w rule: ReadString_loop.induct)
  case (1 delim acc r c w)
  show ?case
  proof (cases "delim \<in> set (buf r)")
    case True
    with "1.prems" show ?thesis by auto
  next
    case False
    note nd = this
    show ?thesis
    proof (cases "rerr r")
      case (Some e)
      with nd "1.prems" show ?thesis by auto
    next
      case None
      show ?thesis
      proof (cases "defaultBufSize \<le> length (buf r)")
        case True
        with nd None "1.prems" "1.IH"(1) show ?thesis by force
      next
        case False
        with nd None "1.prems" obtain r2 c2 w2 where
          f: "fill r c w = Return (r2, c2, w2)"
          and rec: "ReadString_loop delim acc r2 c2 w2 = Return ((line, None), r1, c1, w1)"
          by (auto split: outcome.splits)
        from "1.IH"(2) [OF nd None False f refl refl rec] show ?thesis .
      qed
    qed
  qed
qed

lemma ReadString_consumes:
  assumes "ReadString r delim c w = Return ((line, None), r1, c1, w1)"
  shows "length (buf r1) + rsize w1 < length (buf r) + rsize w"
proof -
  from assms have a: "ReadString_loop delim [] r c w = Return ((line, None), r1, c1, w1)"
    by (simp only: ReadString_def)
  from ReadString_loop_size [OF a] ReadString_loop_line [OF a] show ?thesis
    by (cases line) auto
qed


text \<open>
  \<^verbatim>\<open>(*Reader).Read(p)\<close> with \<open>n = len(p)\<close>: it copies what the buffer holds, or,
  when the buffer is empty, what one read of the connection delivers, and at most \<open>n\<close> bytes.
  It never reads a second time to fill \<open>p\<close>.
\<close>

definition Reader_Read ::
  "Reader \<Rightarrow> nat \<Rightarrow> Conn \<Rightarrow> net \<Rightarrow>
     ((bytes \<times> error option) \<times> Reader \<times> Conn \<times> net) outcome" where
  "Reader_Read r n c w =
     (if n = 0 then
        (if buf r \<noteq> [] then Return (([], None), r, c, w)
         else Return (([], rerr r), r\<lparr>rerr := None\<rparr>, c, w))
      else if buf r = [] then
        (case rerr r of
           Some e \<Rightarrow> Return (([], Some e), r\<lparr>rerr := None\<rparr>, c, w)
         | None \<Rightarrow>
             if defaultBufSize \<le> n then
               (case Conn_Read c n w of
                  Panic \<Rightarrow> Panic
                | Return ((d, err), c1, w1) \<Rightarrow> Return ((d, err), r, c1, w1))
             else
               (case Conn_Read c defaultBufSize w of
                  Panic \<Rightarrow> Panic
                | Return ((d, err), c1, w1) \<Rightarrow>
                    if d = [] then Return (([], err), r, c1, w1)
                    else Return ((take n d, None), r\<lparr>buf := drop n d, rerr := err\<rparr>, c1, w1)))
      else Return ((take n (buf r), None), r\<lparr>buf := drop n (buf r)\<rparr>, c, w))"

section \<open>server.go\<close>

text \<open>
  The mutex of a server serialises the calls of concurrent goroutines; the model runs one
  call at a time and leaves it out.
\<close>

record Server =
  Address :: string
  sconn :: Conn

definition NewServer :: "string \<Rightarrow> net \<Rightarrow> (error + Server) \<times> net" where
  "NewServer address w =
     (case NewConn address w of
        (Inl e, w1) \<Rightarrow> (Inl e, w1)
      | (Inr c, w1) \<Rightarrow> (Inr \<lparr>Address = address, sconn = c\<rparr>, w1))"

definition WriteCommand ::
  "Server \<Rightarrow> bytes \<Rightarrow> net \<Rightarrow> ((bytes \<times> error option) \<times> Server \<times> net) outcome" where
  "WriteCommand s cmd w =
     (case Conn_Write (sconn s) cmd w of
        Panic \<Rightarrow> Panic
      | Return ((n, Some e), c1, w1) \<Rightarrow>
          Return (([], Some (Join ErrWriteFailed e)), s\<lparr>sconn := c1\<rparr>, w1)
      | Return ((n, None), c1, w1) \<Rightarrow>
          (case ReadString NewReader LF c1 w1 of
             Panic \<Rightarrow> Panic
           | Return ((response, Some e), r, c2, w2) \<Rightarrow>
               Return (([], Some (Join ErrReadFailed e)), s\<lparr>sconn := c2\<rparr>, w2)
           | Return ((response, None), r, c2, w2) \<Rightarrow>
               Return ((TrimSpace response, None), s\<lparr>sconn := c2\<rparr>, w2)))"

text \<open>
  \<^verbatim>\<open>GetValue\<close> returns \<open>(value, cas, err)\<close>. The data block is a slice of
  \<open>byteCount + 2\<close> zero bytes (\<^verbatim>\<open>make\<close> panics on a negative length) that one
  \<^verbatim>\<open>reader.Read\<close> overwrites from the front; \<^verbatim>\<open>data[:byteCount]\<close> panics on a
  negative bound.
\<close>

definition GetValue ::
  "Server \<Rightarrow> bytes \<Rightarrow> bool \<Rightarrow> net \<Rightarrow>
     ((bytes \<times> 64 word \<times> error option) \<times> Server \<times> net) outcome" where
  "GetValue s key withCAS w =
     (let cmd = (if withCAS then ''gets '' @ key @ CRLF else ''get '' @ key @ CRLF) in
      case Conn_Write (sconn s) cmd w of
        Panic \<Rightarrow> Panic
      | Return ((n, Some e), c1, w1) \<Rightarrow>
          Return (([], 0, Some (Join ErrWriteFailed e)), s\<lparr>sconn := c1\<rparr>, w1)
      | Return ((n, None), c1, w1) \<Rightarrow>
          (case ReadString NewReader LF c1 w1 of
             Panic \<Rightarrow> Panic
           | Return ((line0, Some e), r1, c2, w2) \<Rightarrow>
               Return (([], 0, Some (Join ErrReadFailed e)), s\<lparr>sconn := c2\<rparr>, w2)
           | Return ((line0, None), r1, c2, w2) \<Rightarrow>
               (let line = TrimSpace line0; s2 = s\<lparr>sconn := c2\<rparr> in
                if line = ''END'' then Return (([], 0, Some ErrNotFound), s2, w2)
                else
                  let parts = Split line (CHR '' '') in
                  if length parts < 4 \<or> parts ! 0 \<noteq> ''VALUE''
                  then Return (([], 0, Some ErrUnexpectedResponse), s2, w2)
                  else if withCAS \<and> length parts < 5
                  then Return (([], 0, Some ErrUnexpectedResponse), s2, w2)
                  else
                    let (cas, caserr) = (if withCAS then ParseUint (parts ! 4) else (0, None)) in
                    case caserr of
                      Some e \<Rightarrow> Return (([], cas, Some (Join ErrInternal e)), s2, w2)
                    | None \<Rightarrow>
                        (case Atoi (parts ! 3) of
                           Inl e \<Rightarrow> Return (([], cas, Some (Join ErrInternal e)), s2, w2)
                         | Inr byteCount \<Rightarrow>
                             if byteCount + 2 < 0 \<or> 2 ^ 63 \<le> byteCount + 2 then Panic
                             else
                               (case Reader_Read r1 (nat (byteCount + 2)) c2 w2 of
                                  Panic \<Rightarrow> Panic
                                | Return ((d, Some e), r2, c3, w3) \<Rightarrow>
                                    Return (([], cas, Some (Join ErrReadFailed e)),
                                            s\<lparr>sconn := c3\<rparr>, w3)
                                | Return ((d, None), r2, c3, w3) \<Rightarrow>
                                    if byteCount < 0 then Panic
                                    else
                                      let data = d @ replicate (nat (byteCount + 2) - length d) NUL;
                                          val = take (nat byteCount) data
                                      in
                                      (case ReadString r2 LF c3 w3 of
                                         Panic \<Rightarrow> Panic
                                       | Return ((endLine, Some e), r3, c4, w4) \<Rightarrow>
                                           Return ((val, cas, Some (Join ErrReadFailed e)),
                                                   s\<lparr>sconn := c4\<rparr>, w4)
                                       | Return ((endLine, None), r3, c4, w4) \<Rightarrow>
                                           if TrimSpace endLine \<noteq> ''END''
                                           then Return ((val, cas, Some ErrUnexpectedResponse),
                                                        s\<lparr>sconn := c4\<rparr>, w4)
                                           else Return ((val, cas, None),
                                                        s\<lparr>sconn := c4\<rparr>, w4)))))))"


text \<open>
  A Go map is a finite partial function; the nil map that \<^verbatim>\<open>GetStats\<close> returns when the
  server sent no line is \<open>None\<close>.
\<close>

type_synonym stats = "bytes \<rightharpoonup> bytes"

function GetStats_loop ::
  "stats option \<Rightarrow> Reader \<Rightarrow> Conn \<Rightarrow> net \<Rightarrow>
     ((stats option \<times> error option) \<times> Conn \<times> net) outcome" where
  "GetStats_loop st r c w =
     (case ReadString r LF c w of
        Panic \<Rightarrow> Panic
      | Return ((line0, Some e), r1, c1, w1) \<Rightarrow>
          Return ((None, Some (Join ErrReadFailed e)), c1, w1)
      | Return ((line0, None), r1, c1, w1) \<Rightarrow>
          (let line = TrimSpace line0 in
           if line = ''END'' then Return ((st, None), c1, w1)
           else
             let parts = SplitN line (CHR '' '') 3 in
             if length parts < 3 then Return ((None, Some ErrUnexpectedResponse), c1, w1)
             else if parts ! 0 \<noteq> ''STAT'' then Return ((None, Some ErrUnexpectedResponse), c1, w1)
             else GetStats_loop
                    (Some ((case st of None \<Rightarrow> Map.empty | Some m \<Rightarrow> m)(parts ! 1 \<mapsto> parts ! 2)))
                    r1 c1 w1))"
  by pat_completeness auto
termination
proof (relation "measure (\<lambda>(st, r, c, w). length (buf r) + rsize w)", goal_cases)
  case 1
  show ?case by simp
next
  case 2
  then show ?case by (auto dest!: ReadString_consumes)
qed

definition GetStats ::
  "Server \<Rightarrow> net \<Rightarrow> ((stats option \<times> error option) \<times> Server \<times> net) outcome" where
  "GetStats s w =
     (case Conn_Write (sconn s) (''stats'' @ CRLF) w of
        Panic \<Rightarrow> Panic
      | Return ((n, Some e), c1, w1) \<Rightarrow>
          Return ((None, Some (Join ErrWriteFailed e)), s\<lparr>sconn := c1\<rparr>, w1)
      | Return ((n, None), c1, w1) \<Rightarrow>
          (case GetStats_loop None NewReader c1 w1 of
             Panic \<Rightarrow> Panic
           | Return (res, c2, w2) \<Rightarrow> Return (res, s\<lparr>sconn := c2\<rparr>, w2)))"


section \<open>client.go\<close>

text \<open>
  The client owns the list of its servers. A \<^verbatim>\<open>*Server\<close> taken from the list is
  modelled by its position in the list; what a call does to that server is written back
  at that position. The lock of the client is left out, as the lock of a server is.
\<close>

record Client =
  servers :: "Server list"

fun NewClient_loop :: "string list \<Rightarrow> net \<Rightarrow> (error + Server list) \<times> net" where
  "NewClient_loop [] w = (Inr [], w)"
| "NewClient_loop (a # as) w =
     (case NewServer a w of
        (Inl e, w1) \<Rightarrow> (Inl e, w1)
      | (Inr s, w1) \<Rightarrow>
          (case NewClient_loop as w1 of
             (Inl e, w2) \<Rightarrow> (Inl e, w2)
           | (Inr ss, w2) \<Rightarrow> (Inr (s # ss), w2)))"

text \<open>\<^verbatim>\<open>NewClient\<close> returns \<open>(c, err)\<close> with \<open>c\<close> nil whenever \<open>err\<close> is not.\<close>

definition NewClient :: "string list \<Rightarrow> net \<Rightarrow> (error + Client) \<times> net" where
  "NewClient addresses w =
     (if length addresses = 0 then (Inl ErrEmptyAddresses, w)
      else case NewClient_loop addresses w of
             (Inl e, w1) \<Rightarrow> (Inl e, w1)
           | (Inr ss, w1) \<Rightarrow> (Inr \<lparr>servers = ss\<rparr>, w1))"

text \<open>
  Go's \<^verbatim>\<open>%\<close> truncates towards zero, and indexing a slice out of range panics.
  \<^verbatim>\<open>int\<close> has 32 or 64 bits, as the target has (32 on 386 and arm, 64 on amd64 and
  arm64); the repository constrains the target nowhere. \<^verbatim>\<open>int(hash)\<close> keeps the low
  \<open>intSize\<close> bits of the \<^verbatim>\<open>uint32\<close> and reads them in two's complement: the value
  is unchanged at 64 bits, and negative at 32 bits when the top bit of the hash is set.
\<close>

definition go_rem :: "int \<Rightarrow> int \<Rightarrow> int" where
  "go_rem a b = a - b * (sgn a * sgn b * (\<bar>a\<bar> div \<bar>b\<bar>))"

definition int_of_uint32 :: "nat \<Rightarrow> 32 word \<Rightarrow> int" where
  "int_of_uint32 intSize h = signed_take_bit (intSize - 1) (uint h)"

text \<open>\<^verbatim>\<open>pickServer\<close> on a target whose \<^verbatim>\<open>int\<close> has \<open>intSize\<close> bits.\<close>

definition pickServer_int :: "nat \<Rightarrow> Client \<Rightarrow> bytes \<Rightarrow> (error + nat) outcome" where
  "pickServer_int intSize c key =
     (if length (servers c) = 0 then Return (Inl ErrNoServers)
      else
        let hash = ChecksumIEEE key;
            idx = go_rem (int_of_uint32 intSize hash) (int (length (servers c)))
        in if idx < 0 \<or> int (length (servers c)) \<le> idx then Panic
           else Return (Inr (nat idx)))"

text \<open>The commands below are modelled on a 64-bit target.\<close>

definition pickServer :: "Client \<Rightarrow> bytes \<Rightarrow> (error + nat) outcome" where
  "pickServer = pickServer_int 64"

definition Client_Set ::
  "Client \<Rightarrow> bytes \<Rightarrow> bytes \<Rightarrow> int \<Rightarrow> net \<Rightarrow> (error option \<times> Client \<times> net) outcome" where
  "Client_Set c key val expiration w =
     (case pickServer c key of
        Panic \<Rightarrow> Panic
      | Return (Inl e) \<Rightarrow> Return (Some e, c, w)
      | Return (Inr i) \<Rightarrow>
          (let command = ''set '' @ key @ '' 0 '' @ Itoa expiration @ '' ''
                           @ Itoa (int (length val)) @ CRLF @ val @ CRLF in
           case WriteCommand (servers c ! i) command w of
             Panic \<Rightarrow> Panic
           | Return ((resp, Some e), s1, w1) \<Rightarrow>
               Return (Some (Join ErrWriteFailed e), c\<lparr>servers := (servers c)[i := s1]\<rparr>, w1)
           | Return ((resp, None), s1, w1) \<Rightarrow>
               if resp \<noteq> ''STORED''
               then Return (Some ErrStoreFailed, c\<lparr>servers := (servers c)[i := s1]\<rparr>, w1)
               else Return (None, c\<lparr>servers := (servers c)[i := s1]\<rparr>, w1)))"

definition Client_Get ::
  "Client \<Rightarrow> bytes \<Rightarrow> net \<Rightarrow> ((bytes \<times> error option) \<times> Client \<times> net) outcome" where
  "Client_Get c key w =
     (case pickServer c key of
        Panic \<Rightarrow> Panic
      | Return (Inl e) \<Rightarrow> Return (([], Some e), c, w)
      | Return (Inr i) \<Rightarrow>
          (case GetValue (servers c ! i) key False w of
             Panic \<Rightarrow> Panic
           | Return ((val, cas, err), s1, w1) \<Rightarrow>
               Return ((val, err), c\<lparr>servers := (servers c)[i := s1]\<rparr>, w1)))"

fun FlushAll_loop ::
  "bytes \<Rightarrow> Server list \<Rightarrow> net \<Rightarrow> (error option \<times> Server list \<times> net) outcome" where
  "FlushAll_loop command [] w = Return (None, [], w)"
| "FlushAll_loop command (s # ss) w =
     (case WriteCommand s command w of
        Panic \<Rightarrow> Panic
      | Return ((resp, Some e), s1, w1) \<Rightarrow> Return (Some (Join ErrWriteFailed e), s1 # ss, w1)
      | Return ((resp, None), s1, w1) \<Rightarrow>
          if resp \<noteq> ''OK'' then Return (Some ErrStoreFailed, s1 # ss, w1)
          else (case FlushAll_loop command ss w1 of
                  Panic \<Rightarrow> Panic
                | Return (err, ss1, w2) \<Rightarrow> Return (err, s1 # ss1, w2)))"

definition FlushAll :: "Client \<Rightarrow> int \<Rightarrow> net \<Rightarrow> (error option \<times> Client \<times> net) outcome" where
  "FlushAll c sec w =
     (case FlushAll_loop (''flush_all '' @ Itoa sec @ CRLF) (servers c) w of
        Panic \<Rightarrow> Panic
      | Return (err, ss, w1) \<Rightarrow> Return (err, c\<lparr>servers := ss\<rparr>, w1))"

definition Increment ::
  "Client \<Rightarrow> bytes \<Rightarrow> int \<Rightarrow> net \<Rightarrow> ((64 word \<times> error option) \<times> Client \<times> net) outcome" where
  "Increment c key delta w =
     (case pickServer c key of
        Panic \<Rightarrow> Panic
      | Return (Inl e) \<Rightarrow> Return ((0, Some e), c, w)
      | Return (Inr i) \<Rightarrow>
          (let command = ''incr '' @ key @ '' '' @ Itoa delta @ CRLF in
           case WriteCommand (servers c ! i) command w of
             Panic \<Rightarrow> Panic
           | Return ((resp, Some e), s1, w1) \<Rightarrow>
               Return ((0, Some (Join ErrWriteFailed e)), c\<lparr>servers := (servers c)[i := s1]\<rparr>, w1)
           | Return ((resp, None), s1, w1) \<Rightarrow>
               if resp = ''NOT_FOUND''
               then Return ((0, Some ErrNotFound), c\<lparr>servers := (servers c)[i := s1]\<rparr>, w1)
               else Return ((Sscanf_d resp, None), c\<lparr>servers := (servers c)[i := s1]\<rparr>, w1)))"

definition Decrement ::
  "Client \<Rightarrow> bytes \<Rightarrow> int \<Rightarrow> net \<Rightarrow> ((64 word \<times> error option) \<times> Client \<times> net) outcome" where
  "Decrement c key delta w =
     (case pickServer c key of
        Panic \<Rightarrow> Panic
      | Return (Inl e) \<Rightarrow> Return ((0, Some e), c, w)
      | Return (Inr i) \<Rightarrow>
          (let command = ''decr '' @ key @ '' '' @ Itoa delta @ CRLF in
           case WriteCommand (servers c ! i) command w of
             Panic \<Rightarrow> Panic
           | Return ((resp, Some e), s1, w1) \<Rightarrow>
               Return ((0, Some (Join ErrWriteFailed e)), c\<lparr>servers := (servers c)[i := s1]\<rparr>, w1)
           | Return ((resp, None), s1, w1) \<Rightarrow>
               if resp = ''NOT_FOUND''
               then Return ((0, Some ErrNotFound), c\<lparr>servers := (servers c)[i := s1]\<rparr>, w1)
               else Return ((Sscanf_d resp, None), c\<lparr>servers := (servers c)[i := s1]\<rparr>, w1)))"

text \<open>
  The inner loop of \<^verbatim>\<open>StatsAll\<close> ranges over the entries of one server's map, whose
  keys are distinct, and stores an entry only under a key that the merged map lacks: in
  whatever order Go visits them, the merged map gains exactly the keys it lacked.
\<close>

definition merge_missing :: "stats \<Rightarrow> stats option \<Rightarrow> stats" where
  "merge_missing merged st =
     (case st of
        None \<Rightarrow> merged
      | Some m \<Rightarrow> (\<lambda>key. case merged key of Some v \<Rightarrow> Some v | None \<Rightarrow> m key))"

fun StatsAll_loop ::
  "stats \<Rightarrow> Server list \<Rightarrow> net \<Rightarrow> ((stats \<times> error option) \<times> Server list \<times> net) outcome" where
  "StatsAll_loop merged [] w = Return ((merged, None), [], w)"
| "StatsAll_loop merged (s # ss) w =
     (case GetStats s w of
        Panic \<Rightarrow> Panic
      | Return ((st, Some e), s1, w1) \<Rightarrow>
          Return ((merged, Some (Join ErrWriteFailed e)), s1 # ss, w1)
      | Return ((st, None), s1, w1) \<Rightarrow>
          (case StatsAll_loop (merge_missing merged st) ss w1 of
             Panic \<Rightarrow> Panic
           | Return (res, ss1, w2) \<Rightarrow> Return (res, s1 # ss1, w2)))"

definition StatsAll ::
  "Client \<Rightarrow> net \<Rightarrow> ((stats \<times> error option) \<times> Client \<times> net) outcome" where
  "StatsAll c w =
     (case StatsAll_loop Map.empty (servers c) w of
        Panic \<Rightarrow> Panic
      | Return (res, ss, w1) \<Rightarrow> Return (res, c\<lparr>servers := ss\<rparr>, w1))"

fun Verbosity_loop ::
  "int \<Rightarrow> Server list \<Rightarrow> net \<Rightarrow> (error option \<times> Server list \<times> net) outcome" where
  "Verbosity_loop level [] w = Return (None, [], w)"
| "Verbosity_loop level (s # ss) w =
     (let command = ''verbosity '' @ Itoa level @ CRLF in
      case WriteCommand s command w of
        Panic \<Rightarrow> Panic
      | Return ((resp, Some e), s1, w1) \<Rightarrow> Return (Some (Join ErrWriteFailed e), s1 # ss, w1)
      | Return ((resp, None), s1, w1) \<Rightarrow>
          if resp \<noteq> ''OK'' then Return (Some ErrStoreFailed, s1 # ss, w1)
          else (case Verbosity_loop level ss w1 of
                  Panic \<Rightarrow> Panic
                | Return (err, ss1, w2) \<Rightarrow> Return (err, s1 # ss1, w2)))"

definition Verbosity :: "Client \<Rightarrow> int \<Rightarrow> net \<Rightarrow> (error option \<times> Client \<times> net) outcome" where
  "Verbosity c level w =
     (case Verbosity_loop level (servers c) w of
        Panic \<Rightarrow> Panic
      | Return (err, ss, w1) \<Rightarrow> Return (err, c\<lparr>servers := ss\<rparr>, w1))"

section \<open>Notions used in the statements\<close>

text \<open>A server at \<open>cache:11211\<close> whose connection holds socket 0, for the examples.\<close>

definition cache0 :: Server where
  "cache0 = \<lparr>Address = ''cache:11211'', sconn = \<lparr>addr = ''cache:11211'', conn = Some 0\<rparr>\<rparr>"

text \<open>Two more servers, on sockets 1 and 2.\<close>

definition cache1 :: Server where
  "cache1 = \<lparr>Address = ''cache1:11211'', sconn = \<lparr>addr = ''cache1:11211'', conn = Some 1\<rparr>\<rparr>"

definition cache2 :: Server where
  "cache2 = \<lparr>Address = ''cache2:11211'', sconn = \<lparr>addr = ''cache2:11211'', conn = Some 2\<rparr>\<rparr>"

text \<open>
  The next \<open>n\<close> dials succeed: the addresses of a list of length \<open>n\<close>, dialled in
  order, are all dialable.
\<close>

definition dialable :: "nat \<Rightarrow> net \<Rightarrow> bool" where
  "dialable n w = (n \<le> length (dials w) \<and> list_all (\<lambda>d. d = None) (take n (dials w)))"

text \<open>The servers that \<^verbatim>\<open>NewClient\<close> builds, on the sockets \<open>k\<close>, \<open>k + 1\<close>, ...\<close>

fun connected :: "string list \<Rightarrow> nat \<Rightarrow> Server list" where
  "connected [] k = []"
| "connected (a # as) k =
     \<lparr>Address = a, sconn = \<lparr>addr = a, conn = Some k\<rparr>\<rparr> # connected as (Suc k)"

text \<open>
  Every server of the list acknowledges the command, one after the other: the servers
  and the network after these exchanges.
\<close>

fun acked :: "bytes \<Rightarrow> Server list \<Rightarrow> net \<Rightarrow> (Server list \<times> net) option" where
  "acked command [] w = Some ([], w)"
| "acked command (s # ss) w =
     (case WriteCommand s command w of
        Panic \<Rightarrow> None
      | Return ((resp, err), s1, w1) \<Rightarrow>
          if err = None \<and> resp = ''OK''
          then (case acked command ss w1 of
                  None \<Rightarrow> None
                | Some (ss1, w2) \<Rightarrow> Some (s1 # ss1, w2))
          else None)"

text \<open>The error that a fan-out reports for an exchange that was not acknowledged.\<close>

definition failure :: "error option \<Rightarrow> error" where
  "failure err = (case err of Some e \<Rightarrow> Join ErrWriteFailed e | None \<Rightarrow> ErrStoreFailed)"

text \<open>
  What the servers report, asked one after the other as \<^verbatim>\<open>StatsAll\<close> asks them, up to
  the first that fails: the reports, the error of the failing server, the servers and the
  network afterwards.
\<close>

fun GetStats_each ::
  "Server list \<Rightarrow> net \<Rightarrow> (stats option list \<times> error option \<times> Server list \<times> net) outcome" where
  "GetStats_each [] w = Return ([], None, [], w)"
| "GetStats_each (s # ss) w =
     (case GetStats s w of
        Panic \<Rightarrow> Panic
      | Return ((st, Some e), s1, w1) \<Rightarrow> Return ([], Some e, s1 # ss, w1)
      | Return ((st, None), s1, w1) \<Rightarrow>
          (case GetStats_each ss w1 of
             Panic \<Rightarrow> Panic
           | Return (sts, err, ss1, w2) \<Rightarrow> Return (st # sts, err, s1 # ss1, w2)))"

text \<open>First writer wins: a key has the value of the first report that holds it.\<close>

fun first_writer :: "stats option list \<Rightarrow> stats" where
  "first_writer [] key = None"
| "first_writer (None # sts) key = first_writer sts key"
| "first_writer (Some m # sts) key =
     (case m key of Some v \<Rightarrow> Some v | None \<Rightarrow> first_writer sts key)"

section \<open>Evaluating the model\<close>

text \<open>
  The first of the at most 100 reads of \<^verbatim>\<open>fill\<close>, and the definitions that a run on
  a concrete network unfolds.
\<close>

lemma fill_unfold:
  "fill r c w =
     (case Conn_Read c (defaultBufSize - length (buf r)) w of
        Panic \<Rightarrow> Panic
      | Return ((d, err), c1, w1) \<Rightarrow>
          (case err of
             Some e \<Rightarrow> Return (r\<lparr>buf := buf r @ d, rerr := Some e\<rparr>, c1, w1)
           | None \<Rightarrow>
               if d \<noteq> [] then Return (r\<lparr>buf := buf r @ d\<rparr>, c1, w1)
               else fill_tries 99 r c1 w1))"
proof -
  have "(100::nat) = Suc 99" by simp
  then show ?thesis unfolding fill_def by (simp only: fill_tries.simps)
qed

lemmas eval_defs = Conn_Write_def Conn_Read_def reconnect_def connect_def sock_Write_def
  sock_Read_def sock_Close_def net_Dial_def fill_unfold ReadString_def Reader_Read_def
  NewReader_def defaultBufSize_def WriteCommand_def GetValue_def
  TrimSpace_def TrimLeft_def TrimRight_def spaces_def is_prefix_def CRLF_def CR_def LF_def NUL_def
  Atoi_def ParseUint_def is_digit_def dec_value_def digit_value_def Itoa_def Sscanf_d_def

section \<open>The connection: one reconnect, one retry\<close>

lemma reconnect_connected:
  "reconnect \<lparr>addr = a, conn = Some s\<rparr> w =
     (case net_Dial a (sock_Close s w) of
        (Inl e, w1) \<Rightarrow> (Some e, \<lparr>addr = a, conn = None\<rparr>, w1)
      | (Inr s2, w1) \<Rightarrow> (None, \<lparr>addr = a, conn = Some s2\<rparr>, w1))"
  by (simp add: reconnect_def connect_def split: prod.splits sum.splits)

text \<open>
  On a connection that holds a socket, \<^verbatim>\<open>Write\<close> tries the socket once. When that
  succeeds nothing else happens. When it fails, the socket is closed and the address is
  dialled once; a failed dial is returned as it is and leaves the connection without a
  socket; after a successful dial the write is tried once more, on the new socket, and its
  result is returned as it is.
\<close>

lemma Conn_Write_connected:
  "Conn_Write \<lparr>addr = a, conn = Some s\<rparr> b w =
     (case sock_Write s b w of
        ((n, None), w1) \<Rightarrow> Return ((n, None), \<lparr>addr = a, conn = Some s\<rparr>, w1)
      | ((n, Some e), w1) \<Rightarrow>
          (case net_Dial a (sock_Close s w1) of
             (Inl e2, w2) \<Rightarrow> Return ((n, Some e2), \<lparr>addr = a, conn = None\<rparr>, w2)
           | (Inr s2, w2) \<Rightarrow>
               (case sock_Write s2 b w2 of
                  (r, w3) \<Rightarrow> Return (r, \<lparr>addr = a, conn = Some s2\<rparr>, w3))))"
  by (simp add: Conn_Write_def reconnect_connected
           split: prod.splits sum.splits option.splits)

lemma Conn_Read_connected:
  "Conn_Read \<lparr>addr = a, conn = Some s\<rparr> k w =
     (case sock_Read s k w of
        ((d, None), w1) \<Rightarrow> Return ((d, None), \<lparr>addr = a, conn = Some s\<rparr>, w1)
      | ((d, Some e), w1) \<Rightarrow>
          (case net_Dial a (sock_Close s w1) of
             (Inl e2, w2) \<Rightarrow> Return ((d, Some e2), \<lparr>addr = a, conn = None\<rparr>, w2)
           | (Inr s2, w2) \<Rightarrow>
               (case sock_Read s2 k w2 of
                  (r, w3) \<Rightarrow> Return (r, \<lparr>addr = a, conn = Some s2\<rparr>, w3))))"
  by (simp add: Conn_Read_def reconnect_connected
           split: prod.splits sum.splits option.splits)

text \<open>
  C1. The claim is stated for every connection. A connection whose socket is absent (the
  state that a failed redial leaves behind) is one of them, and there \<^verbatim>\<open>Write\<close> and
  \<^verbatim>\<open>Read\<close> neither attempt the operation nor reconnect: the method call on the nil
  socket panics, although the network below would accept a dial and the operation.
\<close>

theorem Conn_Write_Read_absent_socket_panic:
  "Conn_Write \<lparr>addr = ''cache:11211'', conn = None\<rparr> ''version''
       \<lparr>dials = [None], writes = [None], reads = [Inr ''VERSION 1.6''], next_sock = 1, log = []\<rparr>
     = Panic
   \<and> Conn_Read \<lparr>addr = ''cache:11211'', conn = None\<rparr> 4096
       \<lparr>dials = [None], writes = [None], reads = [Inr ''VERSION 1.6''], next_sock = 1, log = []\<rparr>
     = Panic"
  by (simp add: Conn_Write_def Conn_Read_def)

text \<open>
  C5. A first \<^verbatim>\<open>Write\<close> whose operation fails and whose redial fails returns the dial
  error and leaves the connection without a socket; the next \<^verbatim>\<open>Write\<close> on the same
  connection does not return an error: it panics.
\<close>

theorem Conn_Write_after_failed_redial_panics:
  "Conn_Write \<lparr>addr = ''cache:11211'', conn = Some 0\<rparr> ''version''
       \<lparr>dials = [Some (NetError ''connection refused'')],
        writes = [Some (0, NetError ''broken pipe'')], reads = [], next_sock = 1, log = []\<rparr>
     = Return ((0, Some (NetError ''connection refused'')),
         \<lparr>addr = ''cache:11211'', conn = None\<rparr>,
         \<lparr>dials = [], writes = [], reads = [], next_sock = 1,
          log = [EvWrite 0 ''version'', EvClose 0, EvDial ''cache:11211'']\<rparr>)
   \<and> Conn_Write \<lparr>addr = ''cache:11211'', conn = None\<rparr> ''version''
       \<lparr>dials = [], writes = [], reads = [], next_sock = 1,
        log = [EvWrite 0 ''version'', EvClose 0, EvDial ''cache:11211'']\<rparr>
     = Panic
   \<and> Conn_Read \<lparr>addr = ''cache:11211'', conn = None\<rparr> 4096
       \<lparr>dials = [], writes = [], reads = [], next_sock = 1,
        log = [EvWrite 0 ''version'', EvClose 0, EvDial ''cache:11211'']\<rparr>
     = Panic"
  by (simp add: Conn_Write_def Conn_Read_def reconnect_def connect_def sock_Write_def
        sock_Close_def net_Dial_def)

section \<open>Routing\<close>

lemma int_of_uint32_64: "int_of_uint32 64 h = uint h"
proof -
  have "uint h < 2 ^ 32" using uint_bounded [of h] by simp
  then have "uint h < 2 ^ 63" by simp
  moreover have "- (2 ^ 63) \<le> uint h"
  proof -
    have "(- (2 ^ 63) :: int) \<le> 0" by simp
    also have "0 \<le> uint h" by simp
    finally show ?thesis .
  qed
  ultimately have "signed_take_bit 63 (uint h) = uint h"
    by (simp add: signed_take_bit_int_eq_self)
  then show ?thesis by (simp add: int_of_uint32_def)
qed

lemma int_of_uint32_32: "int_of_uint32 32 h = sint h"
  by (simp add: int_of_uint32_def sint_uint)

lemma go_rem_nonneg: "0 \<le> a \<Longrightarrow> 0 < b \<Longrightarrow> go_rem a b = a mod b"
  by (cases "a = 0") (simp_all add: go_rem_def minus_mult_div_eq_mod)

lemma go_rem_index:
  assumes "0 < n"
  shows "\<not> go_rem (uint h) (int n) < 0"
    and "\<not> int n \<le> go_rem (uint h) (int n)"
    and "nat (go_rem (uint h) (int n)) = unat h mod n"
proof -
  from assms have pos: "0 < int n" by simp
  have rem: "go_rem (uint h) (int n) = uint h mod int n"
    using go_rem_nonneg [OF _ pos, of "uint h"] by simp
  show "\<not> go_rem (uint h) (int n) < 0"
    unfolding rem using pos_mod_sign [OF pos, of "uint h"] by linarith
  show "\<not> int n \<le> go_rem (uint h) (int n)"
    unfolding rem using pos_mod_bound [OF pos, of "uint h"] by linarith
  show "nat (go_rem (uint h) (int n)) = unat h mod n"
    unfolding rem using nat_mod_distrib [of "uint h" "int n"] by simp
qed

text \<open>
  Where \<^verbatim>\<open>int\<close> has 64 bits, \<^verbatim>\<open>pickServer\<close> fails with \<open>ErrNoServers\<close> exactly on the
  empty list, and otherwise returns, without panic, the server at position CRC-32 of the
  key modulo the number of servers.
\<close>

lemma pickServer_int64_index:
  "pickServer_int 64 c key =
     (if servers c = [] then Return (Inl ErrNoServers)
      else Return (Inr (unat (ChecksumIEEE key) mod length (servers c))))"
  by (simp add: pickServer_int_def Let_def int_of_uint32_64 go_rem_index)

lemma pickServer_index:
  "pickServer c key =
     (if servers c = [] then Return (Inl ErrNoServers)
      else Return (Inr (unat (ChecksumIEEE key) mod length (servers c))))"
  by (simp add: pickServer_def pickServer_int64_index)

lemma ChecksumIEEE_a: "ChecksumIEEE ''a'' = 0xE8B7BE43"
  by code_simp

text \<open>
  C2. The claim is stated for every key and every list of servers. Two servers and the
  key \<open>a\<close>: its CRC-32 is \<open>0xE8B7BE43\<close>, an odd number with the top bit set, so the claim
  asks for the server at position 1. Where \<^verbatim>\<open>int\<close> has 64 bits \<^verbatim>\<open>pickServer\<close>
  returns it. Where \<^verbatim>\<open>int\<close> has 32 bits \<^verbatim>\<open>int(hash)\<close> is \<open>-390611389\<close>, the
  remainder is \<open>-1\<close>, and \<^verbatim>\<open>c.servers[idx]\<close> panics.
\<close>

theorem pickServer_int32_negative_index:
  "pickServer_int 32 \<lparr>servers = [cache0, cache1]\<rparr> ''a'' = Panic
   \<and> int_of_uint32 32 (ChecksumIEEE ''a'') = - 390611389
   \<and> go_rem (- 390611389) 2 = - 1
   \<and> pickServer_int 64 \<lparr>servers = [cache0, cache1]\<rparr> ''a'' = Return (Inr 1)"
proof (intro conjI)
  show "int_of_uint32 32 (ChecksumIEEE ''a'') = - 390611389"
    by (simp add: int_of_uint32_32 ChecksumIEEE_a)
  show "go_rem (- 390611389) 2 = - 1"
    by (simp add: go_rem_def)
  show "pickServer_int 32 \<lparr>servers = [cache0, cache1]\<rparr> ''a'' = Panic"
    by (simp add: pickServer_int_def int_of_uint32_32 ChecksumIEEE_a go_rem_def Let_def)
  have len: "length (servers \<lparr>servers = [cache0, cache1]\<rparr>) = 2" by simp
  have odd: "unat (0xE8B7BE43 :: 32 word) mod 2 = 1" by simp
  show "pickServer_int 64 \<lparr>servers = [cache0, cache1]\<rparr> ''a'' = Return (Inr 1)"
    unfolding pickServer_int64_index ChecksumIEEE_a len odd by simp
qed

section \<open>Reading a value\<close>

text \<open>
  C3. The server answers \<^verbatim>\<open>get k\<close> with a well-formed block, and the transport
  delivers the answer in two pieces, the first ending inside the value.

  First conjunct: the value is \<open>hello\<close>, cut after \<open>he\<close>. The single
  \<^verbatim>\<open>reader.Read(data)\<close> takes the 2 bytes that the buffer holds instead of the
  \<open>5 + 2\<close> of the block, the value is \<open>he\<close> and three zero bytes, the rest of the value
  is read as the closing line, and the call fails with \<open>ErrUnexpectedResponse\<close>.

  Second conjunct: the value is the seven bytes \<open>x\<close>, \<open>END\<close>, line feed, \<open>yy\<close>, cut
  after \<open>x\<close>. One byte of the block is read, the rest of the value passes for the closing
  line, and the call succeeds with a value that is not the one the server sent.
\<close>

theorem GetValue_fragmented_value:
  "GetValue cache0 ''k'' False
       \<lparr>dials = [], writes = [None],
        reads = [Inr (''VALUE k 0 5'' @ CRLF @ ''he''), Inr (''llo'' @ CRLF @ ''END'' @ CRLF)],
        next_sock = 1, log = []\<rparr>
     = Return ((''he'' @ replicate 3 NUL, 0, Some ErrUnexpectedResponse), cache0,
         \<lparr>dials = [], writes = [], reads = [], next_sock = 1,
          log = [EvWrite 0 (''get k'' @ CRLF), EvRead 0 4096, EvRead 0 4096]\<rparr>)
   \<and> GetValue cache0 ''k'' False
       \<lparr>dials = [], writes = [None],
        reads = [Inr (''VALUE k 0 7'' @ CRLF @ ''x''),
                 Inr (''END'' @ [LF] @ ''yy'' @ CRLF @ ''END'' @ CRLF)],
        next_sock = 1, log = []\<rparr>
     = Return ((''x'' @ replicate 6 NUL, 0, None), cache0,
         \<lparr>dials = [], writes = [], reads = [], next_sock = 1,
          log = [EvWrite 0 (''get k'' @ CRLF), EvRead 0 4096, EvRead 0 4096]\<rparr>)"
  by (simp add: eval_defs cache0_def)

text \<open>
  When the whole answer is in the buffer before \<^verbatim>\<open>reader.Read\<close> is called, the value
  comes back as sent, here with a line feed, a zero byte and a carriage return in it.
\<close>

lemma GetValue_unfragmented_example:
  "GetValue cache0 ''k'' False
       \<lparr>dials = [], writes = [None],
        reads = [Inr (''VALUE k 0 5'' @ CRLF @ [CHR ''a'', LF, NUL, CR, CHR ''b''] @ CRLF
                      @ ''END'' @ CRLF)],
        next_sock = 1, log = []\<rparr>
     = Return (([CHR ''a'', LF, NUL, CR, CHR ''b''], 0, None), cache0,
         \<lparr>dials = [], writes = [], reads = [], next_sock = 1,
          log = [EvWrite 0 (''get k'' @ CRLF), EvRead 0 4096]\<rparr>)"
  by (simp add: eval_defs cache0_def)

text \<open>
  C4. One server; the value holds carriage returns and line feeds: \<open>1\<close>, CR LF,
  \<open>END\<close>, CR LF, \<open>2\<close> (9 bytes). The server acknowledges the \<^verbatim>\<open>set\<close> with
  \<open>STORED\<close> and answers the \<^verbatim>\<open>get\<close> with the block that the protocol prescribes; the
  transport delivers that answer in two pieces. \<^verbatim>\<open>Set\<close> succeeds, \<^verbatim>\<open>Get\<close> succeeds,
  and the value returned is \<open>1\<close>, CR LF and six zero bytes.
\<close>

theorem Set_Get_roundtrip_fragmented:
  "Client_Set \<lparr>servers = [cache0]\<rparr> ''k'' (''1'' @ CRLF @ ''END'' @ CRLF @ ''2'') 0
       \<lparr>dials = [], writes = [None, None],
        reads = [Inr (''STORED'' @ CRLF),
                 Inr (''VALUE k 0 9'' @ CRLF @ ''1'' @ CRLF),
                 Inr (''END'' @ CRLF @ ''2'' @ CRLF @ ''END'' @ CRLF)],
        next_sock = 1, log = []\<rparr>
     = Return (None, \<lparr>servers = [cache0]\<rparr>,
         \<lparr>dials = [], writes = [None],
          reads = [Inr (''VALUE k 0 9'' @ CRLF @ ''1'' @ CRLF),
                   Inr (''END'' @ CRLF @ ''2'' @ CRLF @ ''END'' @ CRLF)],
          next_sock = 1,
          log = [EvWrite 0 (''set k 0 0 9'' @ CRLF @ ''1'' @ CRLF @ ''END'' @ CRLF @ ''2'' @ CRLF),
                 EvRead 0 4096]\<rparr>)
   \<and> Client_Get \<lparr>servers = [cache0]\<rparr> ''k''
       \<lparr>dials = [], writes = [None],
        reads = [Inr (''VALUE k 0 9'' @ CRLF @ ''1'' @ CRLF),
                 Inr (''END'' @ CRLF @ ''2'' @ CRLF @ ''END'' @ CRLF)],
        next_sock = 1,
        log = [EvWrite 0 (''set k 0 0 9'' @ CRLF @ ''1'' @ CRLF @ ''END'' @ CRLF @ ''2'' @ CRLF),
               EvRead 0 4096]\<rparr>
     = Return ((''1'' @ CRLF @ replicate 6 NUL, None), \<lparr>servers = [cache0]\<rparr>,
         \<lparr>dials = [], writes = [], reads = [], next_sock = 1,
          log = [EvWrite 0 (''set k 0 0 9'' @ CRLF @ ''1'' @ CRLF @ ''END'' @ CRLF @ ''2'' @ CRLF),
                 EvRead 0 4096, EvWrite 0 (''get k'' @ CRLF), EvRead 0 4096, EvRead 0 4096]\<rparr>)"
  by (simp add: eval_defs cache0_def pickServer_index Client_Set_def Client_Get_def)

section \<open>Construction\<close>

lemma NewServer_cases:
  "NewServer a w =
     (case dials w of
        [] \<Rightarrow> (Inl (NetError ''connection refused''), w\<lparr>log := log w @ [EvDial a]\<rparr>)
      | Some e # ds \<Rightarrow> (Inl e, w\<lparr>dials := ds, log := log w @ [EvDial a]\<rparr>)
      | None # ds \<Rightarrow>
          (Inr \<lparr>Address = a, sconn = \<lparr>addr = a, conn = Some (next_sock w)\<rparr>\<rparr>,
           w\<lparr>dials := ds, next_sock := Suc (next_sock w), log := log w @ [EvDial a]\<rparr>))"
  by (simp add: NewServer_def NewConn_def net_Dial_def Let_def split: list.splits option.splits)

lemma NewClient_loop_dialable:
  "dialable (length as) w \<Longrightarrow>
     NewClient_loop as w =
       (Inr (connected as (next_sock w)),
        w\<lparr>dials := drop (length as) (dials w), next_sock := next_sock w + length as,
          log := log w @ map EvDial as\<rparr>)"
proof (induction as arbitrary: w)
  case Nil
  then show ?case by simp
next
  case (Cons a as)
  from Cons.prems obtain ds where ds: "dials w = None # ds"
    by (cases "dials w") (auto simp: dialable_def)
  let ?w1 = "w\<lparr>dials := ds, next_sock := Suc (next_sock w), log := log w @ [EvDial a]\<rparr>"
  from Cons.prems ds have "dialable (length as) ?w1" by (simp add: dialable_def)
  from Cons.IH [OF this] ds show ?case by (simp add: NewServer_cases)
qed

lemma NewClient_loop_not_dialable:
  "\<not> dialable (length as) w \<Longrightarrow> \<exists>e w1. NewClient_loop as w = (Inl e, w1)"
proof (induction as arbitrary: w)
  case Nil
  then show ?case by (simp add: dialable_def)
next
  case (Cons a as)
  show ?case
  proof (cases "dials w")
    case Nil
    then show ?thesis by (simp add: NewServer_cases)
  next
    case (Cons d ds)
    note dw = this
    show ?thesis
    proof (cases d)
      case (Some e)
      with dw show ?thesis by (simp add: NewServer_cases)
    next
      case None
      let ?w1 = "w\<lparr>dials := ds, next_sock := Suc (next_sock w), log := log w @ [EvDial a]\<rparr>"
      from Cons.prems dw None have "\<not> dialable (length as) ?w1" by (simp add: dialable_def)
      from Cons.IH [OF this] obtain e w1 where "NewClient_loop as ?w1 = (Inl e, w1)" by blast
      with dw None show ?thesis by (simp add: NewServer_cases)
    qed
  qed
qed

text \<open>
  C7. Without addresses \<^verbatim>\<open>NewClient\<close> fails with \<open>ErrEmptyAddresses\<close> and dials
  nothing. With addresses it succeeds exactly when every dial succeeds: it has then dialled
  every address, in order, and holds one connected server for each. Otherwise a dial has
  failed and it returns an error and no client.
\<close>

theorem NewClient_iff_all_dialable:
  "NewClient [] w = (Inl ErrEmptyAddresses, w)
   \<and> (if addresses \<noteq> [] \<and> dialable (length addresses) w
      then NewClient addresses w =
             (Inr \<lparr>servers = connected addresses (next_sock w)\<rparr>,
              w\<lparr>dials := drop (length addresses) (dials w),
                next_sock := next_sock w + length addresses,
                log := log w @ map EvDial addresses\<rparr>)
      else \<exists>e w1. NewClient addresses w = (Inl e, w1))"
proof -
  have "\<exists>e w1. NewClient addresses w = (Inl e, w1)"
    if "\<not> (addresses \<noteq> [] \<and> dialable (length addresses) w)"
  proof (cases "addresses = []")
    case True
    then show ?thesis by (simp add: NewClient_def)
  next
    case False
    with that have "\<not> dialable (length addresses) w" by simp
    from NewClient_loop_not_dialable [OF this] False show ?thesis
      by (auto simp: NewClient_def)
  qed
  then show ?thesis
    by (auto simp: NewClient_def NewClient_loop_dialable)
qed

text \<open>Two addresses that connect; three addresses of which the second does not.\<close>

lemma NewClient_examples:
  "NewClient [''a:11211'', ''b:11211'']
      \<lparr>dials = [None, None], writes = [], reads = [], next_sock = 0, log = []\<rparr>
    = (Inr \<lparr>servers = [\<lparr>Address = ''a:11211'', sconn = \<lparr>addr = ''a:11211'', conn = Some 0\<rparr>\<rparr>,
                        \<lparr>Address = ''b:11211'', sconn = \<lparr>addr = ''b:11211'', conn = Some 1\<rparr>\<rparr>]\<rparr>,
       \<lparr>dials = [], writes = [], reads = [], next_sock = 2,
        log = [EvDial ''a:11211'', EvDial ''b:11211'']\<rparr>)
  \<and> NewClient [''a:11211'', ''b:11211'', ''c:11211'']
      \<lparr>dials = [None, Some (NetError ''no route to host''), None], writes = [], reads = [],
       next_sock = 0, log = []\<rparr>
    = (Inl (NetError ''no route to host''),
       \<lparr>dials = [None], writes = [], reads = [], next_sock = 1,
        log = [EvDial ''a:11211'', EvDial ''b:11211'']\<rparr>)"
  by (simp add: NewClient_def NewServer_cases)

section \<open>Arithmetic commands\<close>

lemma Sscanf_d_non_numeric:
  "resp = [] \<or> \<not> is_digit (hd resp) \<Longrightarrow> Sscanf_d resp = 0"
  by (cases resp) (auto simp: Sscanf_d_def)

lemma Sscanf_d_numeric:
  "list_all is_digit ds \<Longrightarrow> ds \<noteq> [] \<Longrightarrow> dec_value ds < 2 ^ 64 \<Longrightarrow>
   rest = [] \<or> \<not> is_digit (hd rest) \<Longrightarrow>
   Sscanf_d (ds @ rest) = of_nat (dec_value ds)"
proof -
  assume a: "list_all is_digit ds" "ds \<noteq> []" "dec_value ds < 2 ^ 64"
    "rest = [] \<or> \<not> is_digit (hd rest)"
  then have "takeWhile is_digit (ds @ rest) = ds"
    by (cases rest) (auto simp: list_all_iff takeWhile_append2)
  with a show ?thesis by (simp add: Sscanf_d_def Let_def)
qed

text \<open>
  C8. The server picked for the key has answered the command with the line \<open>resp\<close>
  (trimmed). \<^verbatim>\<open>Increment\<close> and \<^verbatim>\<open>Decrement\<close> fail with \<open>ErrNotFound\<close> when
  \<open>resp\<close> is \<open>NOT_FOUND\<close>, and only then: they return \<open>ErrNotFound\<close> in no other
  case. Any other line is scanned for a leading unsigned integer and returned without
  error; a line that does not start with a digit gives 0.
\<close>

theorem Increment_Decrement_reply:
  "(servers c \<noteq> [] \<and> i = unat (ChecksumIEEE key) mod length (servers c) \<and>
    WriteCommand (servers c ! i) (''incr '' @ key @ '' '' @ Itoa delta @ CRLF) w
      = Return ((resp, None), s1, w1)
    \<longrightarrow> Increment c key delta w =
          Return ((if resp = ''NOT_FOUND'' then (0, Some ErrNotFound) else (Sscanf_d resp, None)),
                  c\<lparr>servers := (servers c)[i := s1]\<rparr>, w1))
   \<and> (servers c \<noteq> [] \<and> i = unat (ChecksumIEEE key) mod length (servers c) \<and>
    WriteCommand (servers c ! i) (''decr '' @ key @ '' '' @ Itoa delta @ CRLF) w
      = Return ((resp, None), s1, w1)
    \<longrightarrow> Decrement c key delta w =
          Return ((if resp = ''NOT_FOUND'' then (0, Some ErrNotFound) else (Sscanf_d resp, None)),
                  c\<lparr>servers := (servers c)[i := s1]\<rparr>, w1))
   \<and> (Increment c key delta w = Return ((v, Some ErrNotFound), c1, w1)
    \<longrightarrow> servers c \<noteq> [] \<and>
        (\<exists>s2. WriteCommand (servers c ! (unat (ChecksumIEEE key) mod length (servers c)))
                (''incr '' @ key @ '' '' @ Itoa delta @ CRLF) w
              = Return ((''NOT_FOUND'', None), s2, w1)))
   \<and> (Decrement c key delta w = Return ((v, Some ErrNotFound), c1, w1)
    \<longrightarrow> servers c \<noteq> [] \<and>
        (\<exists>s2. WriteCommand (servers c ! (unat (ChecksumIEEE key) mod length (servers c)))
                (''decr '' @ key @ '' '' @ Itoa delta @ CRLF) w
              = Return ((''NOT_FOUND'', None), s2, w1)))
   \<and> (resp = [] \<or> \<not> is_digit (hd resp) \<longrightarrow> Sscanf_d resp = 0)"
proof (intro conjI impI)
  show "Sscanf_d resp = 0" if "resp = [] \<or> \<not> is_digit (hd resp)"
    using that by (rule Sscanf_d_non_numeric)
qed (auto simp: Increment_def Decrement_def pickServer_index Let_def
      split: if_splits outcome.splits option.splits prod.splits)

theorem Increment_Decrement_reply_witness:
  "Increment \<lparr>servers = [cache0]\<rparr> ''n'' 1
       \<lparr>dials = [], writes = [None], reads = [Inr (''NOT_FOUND'' @ CRLF)], next_sock = 1, log = []\<rparr>
     = Return ((0, Some ErrNotFound), \<lparr>servers = [cache0]\<rparr>,
         \<lparr>dials = [], writes = [], reads = [], next_sock = 1,
          log = [EvWrite 0 (''incr n 1'' @ CRLF), EvRead 0 4096]\<rparr>)
   \<and> Decrement \<lparr>servers = [cache0]\<rparr> ''n'' 1
       \<lparr>dials = [], writes = [None], reads = [Inr (''NOT_FOUND'' @ CRLF)], next_sock = 1, log = []\<rparr>
     = Return ((0, Some ErrNotFound), \<lparr>servers = [cache0]\<rparr>,
         \<lparr>dials = [], writes = [], reads = [], next_sock = 1,
          log = [EvWrite 0 (''decr n 1'' @ CRLF), EvRead 0 4096]\<rparr>)
   \<and> Decrement \<lparr>servers = [cache0]\<rparr> ''n'' 1
       \<lparr>dials = [], writes = [None], reads = [Inr (''ERROR'' @ CRLF)], next_sock = 1, log = []\<rparr>
     = Return ((0, None), \<lparr>servers = [cache0]\<rparr>,
         \<lparr>dials = [], writes = [], reads = [], next_sock = 1,
          log = [EvWrite 0 (''decr n 1'' @ CRLF), EvRead 0 4096]\<rparr>)
   \<and> (\<exists>s2. WriteCommand cache0 (''incr n 1'' @ CRLF)
       \<lparr>dials = [], writes = [None], reads = [Inr (''NOT_FOUND'' @ CRLF)], next_sock = 1, log = []\<rparr>
     = Return ((''NOT_FOUND'', None), s2,
         \<lparr>dials = [], writes = [], reads = [], next_sock = 1,
          log = [EvWrite 0 (''incr n 1'' @ CRLF), EvRead 0 4096]\<rparr>))
   \<and> (\<exists>s2. WriteCommand cache0 (''decr n 1'' @ CRLF)
       \<lparr>dials = [], writes = [None], reads = [Inr (''NOT_FOUND'' @ CRLF)], next_sock = 1, log = []\<rparr>
     = Return ((''NOT_FOUND'', None), s2,
         \<lparr>dials = [], writes = [], reads = [], next_sock = 1,
          log = [EvWrite 0 (''decr n 1'' @ CRLF), EvRead 0 4096]\<rparr>))"
proof -
  let ?c = "\<lparr>servers = [cache0]\<rparr>"
  let ?w = "\<lparr>dials = [], writes = [None], reads = [Inr (''NOT_FOUND'' @ CRLF)],
             next_sock = 1, log = []\<rparr>"
  let ?wi = "\<lparr>dials = [], writes = [], reads = [], next_sock = 1,
              log = [EvWrite 0 (''incr n 1'' @ CRLF), EvRead 0 4096]\<rparr>"
  let ?wd = "\<lparr>dials = [], writes = [], reads = [], next_sock = 1,
              log = [EvWrite 0 (''decr n 1'' @ CRLF), EvRead 0 4096]\<rparr>"
  let ?v = "\<lparr>dials = [], writes = [None], reads = [Inr (''ERROR'' @ CRLF)],
             next_sock = 1, log = []\<rparr>"
  have ne: "servers ?c \<noteq> []" by simp
  have i: "(0::nat) = unat (ChecksumIEEE ''n'') mod length (servers ?c)" by simp
  have incr: "WriteCommand (servers ?c ! 0) (''incr '' @ ''n'' @ '' '' @ Itoa 1 @ CRLF) ?w
                = Return ((''NOT_FOUND'', None), cache0, ?wi)"
    by (simp add: eval_defs cache0_def)
  have decr: "WriteCommand (servers ?c ! 0) (''decr '' @ ''n'' @ '' '' @ Itoa 1 @ CRLF) ?w
                = Return ((''NOT_FOUND'', None), cache0, ?wd)"
    by (simp add: eval_defs cache0_def)
  have err: "WriteCommand (servers ?c ! 0) (''decr '' @ ''n'' @ '' '' @ Itoa 1 @ CRLF) ?v
                = Return ((''ERROR'', None), cache0, ?wd)"
    by (simp add: eval_defs cache0_def)
  have nondigit: "''ERROR'' = [] \<or> \<not> is_digit (hd ''ERROR'')" by (simp add: is_digit_def)
  from Increment_Decrement_reply [of ?c 0 "''n''" 1 ?w "''NOT_FOUND''" cache0 ?wi] ne i incr
  have a: "Increment ?c ''n'' 1 ?w = Return ((0, Some ErrNotFound), ?c, ?wi)"
    by simp
  from Increment_Decrement_reply [of ?c 0 "''n''" 1 ?w "''NOT_FOUND''" cache0 ?wd] ne i decr
  have b: "Decrement ?c ''n'' 1 ?w = Return ((0, Some ErrNotFound), ?c, ?wd)"
    by simp
  from Increment_Decrement_reply [of ?c 0 "''n''" 1 ?v "''ERROR''" cache0 ?wd] ne i err nondigit
  have c: "Decrement ?c ''n'' 1 ?v = Return ((0, None), ?c, ?wd)"
    by simp
  from Increment_Decrement_reply [of ?c 0 "''n''" 1 ?w "''NOT_FOUND''" cache0 ?wi 0 ?c] a
  have d: "\<exists>s2. WriteCommand cache0 (''incr n 1'' @ CRLF) ?w = Return ((''NOT_FOUND'', None), s2, ?wi)"
    by (simp add: Itoa_def)
  from Increment_Decrement_reply [of ?c 0 "''n''" 1 ?w "''NOT_FOUND''" cache0 ?wd 0 ?c] b
  have e: "\<exists>s2. WriteCommand cache0 (''decr n 1'' @ CRLF) ?w = Return ((''NOT_FOUND'', None), s2, ?wd)"
    by (simp add: Itoa_def)
  from a b c d e show ?thesis by simp
qed

section \<open>Fan-out commands\<close>

lemma FlushAll_loop_all_acked:
  "acked command ss w = Some (ss1, w1) \<Longrightarrow> FlushAll_loop command ss w = Return (None, ss1, w1)"
proof (induction ss arbitrary: w ss1)
  case Nil
  then show ?case by simp
next
  case (Cons s ss)
  from Cons.prems obtain resp s1 w2 ss2 where
    wc: "WriteCommand s command w = Return ((resp, None), s1, w2)" and ok: "resp = ''OK''"
    and rest: "acked command ss w2 = Some (ss2, w1)" and eq: "ss1 = s1 # ss2"
    by (auto split: outcome.splits if_splits option.splits)
  from Cons.IH [OF rest] wc ok eq show ?case by simp
qed

lemma FlushAll_loop_first_failure:
  "acked command pre w = Some (pre1, w1) \<Longrightarrow>
   WriteCommand s command w1 = Return ((resp, err), s1, w2) \<Longrightarrow>
   \<not> (err = None \<and> resp = ''OK'') \<Longrightarrow>
   FlushAll_loop command (pre @ s # post) w = Return (Some (failure err), pre1 @ s1 # post, w2)"
proof (induction pre arbitrary: w pre1)
  case Nil
  then show ?case by (cases err) (auto simp: failure_def)
next
  case (Cons p pre)
  from Cons.prems(1) obtain r p1 w3 pre2 where
    wc: "WriteCommand p command w = Return ((r, None), p1, w3)" and ok: "r = ''OK''"
    and rest: "acked command pre w3 = Some (pre2, w1)" and eq: "pre1 = p1 # pre2"
    by (auto split: outcome.splits if_splits option.splits)
  from Cons.IH [OF rest Cons.prems(2,3)] wc ok eq show ?case by simp
qed

lemma Verbosity_loop_eq:
  "Verbosity_loop level ss w = FlushAll_loop (''verbosity '' @ Itoa level @ CRLF) ss w"
  by (induction ss arbitrary: w)
     (auto simp: Let_def split: outcome.splits option.splits prod.splits)

text \<open>
  C10. \<^verbatim>\<open>FlushAll\<close> and \<^verbatim>\<open>Verbosity\<close> run through the servers in the order of the
  list. When the servers of \<open>pre\<close> acknowledge and the exchange with the next server
  \<open>s\<close> fails or is answered by anything but \<open>OK\<close>, the call returns that failure;
  the servers of \<open>pre\<close> are as their one exchange left them, the servers of \<open>post\<close>
  are untouched, and the network is as the failed exchange left it: nothing is sent or
  read after the failure. When every server acknowledges, the call returns no error.
\<close>

theorem fan_out_stops_at_first_failure:
  "(acked (''flush_all '' @ Itoa sec @ CRLF) pre w = Some (pre1, w1) \<and>
    WriteCommand s (''flush_all '' @ Itoa sec @ CRLF) w1 = Return ((resp, err), s1, w2) \<and>
    \<not> (err = None \<and> resp = ''OK'')
    \<longrightarrow> FlushAll \<lparr>servers = pre @ s # post\<rparr> sec w
          = Return (Some (failure err), \<lparr>servers = pre1 @ s1 # post\<rparr>, w2))
   \<and> (acked (''flush_all '' @ Itoa sec @ CRLF) ss w = Some (ss1, w1)
    \<longrightarrow> FlushAll \<lparr>servers = ss\<rparr> sec w = Return (None, \<lparr>servers = ss1\<rparr>, w1))
   \<and> (acked (''verbosity '' @ Itoa level @ CRLF) pre w = Some (pre1, w1) \<and>
    WriteCommand s (''verbosity '' @ Itoa level @ CRLF) w1 = Return ((resp, err), s1, w2) \<and>
    \<not> (err = None \<and> resp = ''OK'')
    \<longrightarrow> Verbosity \<lparr>servers = pre @ s # post\<rparr> level w
          = Return (Some (failure err), \<lparr>servers = pre1 @ s1 # post\<rparr>, w2))
   \<and> (acked (''verbosity '' @ Itoa level @ CRLF) ss w = Some (ss1, w1)
    \<longrightarrow> Verbosity \<lparr>servers = ss\<rparr> level w = Return (None, \<lparr>servers = ss1\<rparr>, w1))"
  by (auto simp: FlushAll_def Verbosity_def Verbosity_loop_eq
        FlushAll_loop_all_acked FlushAll_loop_first_failure)

theorem fan_out_stops_at_first_failure_witness:
  "FlushAll \<lparr>servers = [cache0, cache1, cache2]\<rparr> 0
       \<lparr>dials = [], writes = [None, None, None],
        reads = [Inr (''OK'' @ CRLF), Inr (''ERROR'' @ CRLF), Inr (''OK'' @ CRLF)],
        next_sock = 3, log = []\<rparr>
     = Return (Some ErrStoreFailed, \<lparr>servers = [cache0, cache1, cache2]\<rparr>,
         \<lparr>dials = [], writes = [None], reads = [Inr (''OK'' @ CRLF)], next_sock = 3,
          log = [EvWrite 0 (''flush_all 0'' @ CRLF), EvRead 0 4096,
                 EvWrite 1 (''flush_all 0'' @ CRLF), EvRead 1 4096]\<rparr>)
   \<and> FlushAll \<lparr>servers = [cache0, cache1]\<rparr> 0
       \<lparr>dials = [], writes = [None, None],
        reads = [Inr (''OK'' @ CRLF), Inr (''OK'' @ CRLF)], next_sock = 3, log = []\<rparr>
     = Return (None, \<lparr>servers = [cache0, cache1]\<rparr>,
         \<lparr>dials = [], writes = [], reads = [], next_sock = 3,
          log = [EvWrite 0 (''flush_all 0'' @ CRLF), EvRead 0 4096,
                 EvWrite 1 (''flush_all 0'' @ CRLF), EvRead 1 4096]\<rparr>)
   \<and> Verbosity \<lparr>servers = [cache0, cache1, cache2]\<rparr> 2
       \<lparr>dials = [], writes = [None, None, None],
        reads = [Inr (''OK'' @ CRLF), Inl (NetError ''connection reset'')],
        next_sock = 3, log = []\<rparr>
     = Return (Some (Join ErrWriteFailed (Join ErrReadFailed (NetError ''connection refused''))),
         \<lparr>servers = [cache0, cache1\<lparr>sconn := \<lparr>addr = ''cache1:11211'', conn = None\<rparr>\<rparr>, cache2]\<rparr>,
         \<lparr>dials = [], writes = [None], reads = [], next_sock = 3,
          log = [EvWrite 0 (''verbosity 2'' @ CRLF), EvRead 0 4096,
                 EvWrite 1 (''verbosity 2'' @ CRLF), EvRead 1 4096,
                 EvClose 1, EvDial ''cache1:11211'']\<rparr>)
   \<and> Verbosity \<lparr>servers = [cache0, cache1]\<rparr> 2
       \<lparr>dials = [], writes = [None, None],
        reads = [Inr (''OK'' @ CRLF), Inr (''OK'' @ CRLF)], next_sock = 3, log = []\<rparr>
     = Return (None, \<lparr>servers = [cache0, cache1]\<rparr>,
         \<lparr>dials = [], writes = [], reads = [], next_sock = 3,
          log = [EvWrite 0 (''verbosity 2'' @ CRLF), EvRead 0 4096,
                 EvWrite 1 (''verbosity 2'' @ CRLF), EvRead 1 4096]\<rparr>)"
proof -
  let ?f = "''flush_all '' @ Itoa 0 @ CRLF"
  let ?v = "''verbosity '' @ Itoa 2 @ CRLF"
  let ?w = "\<lparr>dials = [], writes = [None, None, None],
             reads = [Inr (''OK'' @ CRLF), Inr (''ERROR'' @ CRLF), Inr (''OK'' @ CRLF)],
             next_sock = 3, log = []\<rparr>"
  let ?w1 = "\<lparr>dials = [], writes = [None, None],
              reads = [Inr (''ERROR'' @ CRLF), Inr (''OK'' @ CRLF)], next_sock = 3,
              log = [EvWrite 0 (''flush_all 0'' @ CRLF), EvRead 0 4096]\<rparr>"
  let ?w2 = "\<lparr>dials = [], writes = [None], reads = [Inr (''OK'' @ CRLF)], next_sock = 3,
              log = [EvWrite 0 (''flush_all 0'' @ CRLF), EvRead 0 4096,
                     EvWrite 1 (''flush_all 0'' @ CRLF), EvRead 1 4096]\<rparr>"
  let ?u = "\<lparr>dials = [], writes = [None, None],
             reads = [Inr (''OK'' @ CRLF), Inr (''OK'' @ CRLF)], next_sock = 3, log = []\<rparr>"
  let ?u2 = "\<lparr>dials = [], writes = [], reads = [], next_sock = 3,
              log = [EvWrite 0 (''flush_all 0'' @ CRLF), EvRead 0 4096,
                     EvWrite 1 (''flush_all 0'' @ CRLF), EvRead 1 4096]\<rparr>"
  let ?x = "\<lparr>dials = [], writes = [None, None, None],
             reads = [Inr (''OK'' @ CRLF), Inl (NetError ''connection reset'')],
             next_sock = 3, log = []\<rparr>"
  let ?x1 = "\<lparr>dials = [], writes = [None, None],
              reads = [Inl (NetError ''connection reset'')], next_sock = 3,
              log = [EvWrite 0 (''verbosity 2'' @ CRLF), EvRead 0 4096]\<rparr>"
  let ?x2 = "\<lparr>dials = [], writes = [None], reads = [], next_sock = 3,
              log = [EvWrite 0 (''verbosity 2'' @ CRLF), EvRead 0 4096,
                     EvWrite 1 (''verbosity 2'' @ CRLF), EvRead 1 4096,
                     EvClose 1, EvDial ''cache1:11211'']\<rparr>"
  let ?y2 = "\<lparr>dials = [], writes = [], reads = [], next_sock = 3,
              log = [EvWrite 0 (''verbosity 2'' @ CRLF), EvRead 0 4096,
                     EvWrite 1 (''verbosity 2'' @ CRLF), EvRead 1 4096]\<rparr>"
  let ?down = "cache1\<lparr>sconn := \<lparr>addr = ''cache1:11211'', conn = None\<rparr>\<rparr>"
  have a1: "acked ?f [cache0] ?w = Some ([cache0], ?w1)"
    by (simp add: eval_defs cache0_def)
  have a2: "WriteCommand cache1 ?f ?w1 = Return ((''ERROR'', None), cache1, ?w2)"
    by (simp add: eval_defs cache1_def)
  have a3: "\<not> (None = (None :: error option) \<and> ''ERROR'' = ''OK'')" by simp
  from fan_out_stops_at_first_failure
         [where sec = 0 and pre = "[cache0]" and w = ?w and ?pre1.0 = "[cache0]" and ?w1.0 = ?w1
            and s = cache1 and resp = "''ERROR''" and err = None and ?s1.0 = cache1
            and ?w2.0 = ?w2 and post = "[cache2]"]
       a1 a2 a3
  have A: "FlushAll \<lparr>servers = [cache0, cache1, cache2]\<rparr> 0 ?w
             = Return (Some ErrStoreFailed, \<lparr>servers = [cache0, cache1, cache2]\<rparr>, ?w2)"
    by (simp add: failure_def)
  have b1: "acked ?f [cache0, cache1] ?u = Some ([cache0, cache1], ?u2)"
    by (simp add: eval_defs cache0_def cache1_def)
  from fan_out_stops_at_first_failure
         [where sec = 0 and ss = "[cache0, cache1]" and w = ?u and ?ss1.0 = "[cache0, cache1]"
            and ?w1.0 = ?u2] b1
  have B: "FlushAll \<lparr>servers = [cache0, cache1]\<rparr> 0 ?u
             = Return (None, \<lparr>servers = [cache0, cache1]\<rparr>, ?u2)"
    by simp
  have c1: "acked ?v [cache0] ?x = Some ([cache0], ?x1)"
    by (simp add: eval_defs cache0_def)
  have c2: "WriteCommand cache1 ?v ?x1
              = Return (([], Some (Join ErrReadFailed (NetError ''connection refused''))), ?down, ?x2)"
    by (simp add: eval_defs cache1_def)
  have c3: "\<not> (Some (Join ErrReadFailed (NetError ''connection refused'')) = None \<and> [] = ''OK'')"
    by simp
  from fan_out_stops_at_first_failure
         [where level = 2 and pre = "[cache0]" and w = ?x and ?pre1.0 = "[cache0]" and ?w1.0 = ?x1
            and s = cache1 and resp = "[]"
            and err = "Some (Join ErrReadFailed (NetError ''connection refused''))"
            and ?s1.0 = ?down and ?w2.0 = ?x2 and post = "[cache2]"]
       c1 c2 c3
  have C: "Verbosity \<lparr>servers = [cache0, cache1, cache2]\<rparr> 2 ?x
             = Return (Some (Join ErrWriteFailed (Join ErrReadFailed (NetError ''connection refused''))),
                       \<lparr>servers = [cache0, ?down, cache2]\<rparr>, ?x2)"
    by (simp add: failure_def)
  have d1: "acked ?v [cache0, cache1] ?u = Some ([cache0, cache1], ?y2)"
    by (simp add: eval_defs cache0_def cache1_def)
  from fan_out_stops_at_first_failure
         [where level = 2 and ss = "[cache0, cache1]" and w = ?u and ?ss1.0 = "[cache0, cache1]"
            and ?w1.0 = ?y2] d1
  have D: "Verbosity \<lparr>servers = [cache0, cache1]\<rparr> 2 ?u
             = Return (None, \<lparr>servers = [cache0, cache1]\<rparr>, ?y2)"
    by simp
  from A B C D show ?thesis by simp
qed

section \<open>Merging statistics\<close>

lemma first_writer_merge:
  "first_writer (Some (merge_missing merged st) # sts) = first_writer (Some merged # st # sts)"
  by (rule ext) (cases st; simp add: merge_missing_def split: option.splits)

lemma first_writer_single: "first_writer [Some merged] = merged"
  by (rule ext) (simp split: option.splits)

lemma first_writer_empty: "first_writer (Some Map.empty # sts) = first_writer sts"
  by (rule ext) simp

lemma StatsAll_loop_first_writer:
  "StatsAll_loop merged ss w =
     (case GetStats_each ss w of
        Panic \<Rightarrow> Panic
      | Return (sts, err, ss1, w1) \<Rightarrow>
          Return ((first_writer (Some merged # sts), map_option (Join ErrWriteFailed) err), ss1, w1))"
proof (induction ss arbitrary: merged w)
  case Nil
  then show ?case by (simp add: first_writer_single)
next
  case (Cons s ss)
  show ?case
  proof (cases "GetStats s w")
    case Panic
    then show ?thesis by simp
  next
    case (Return x)
    then obtain st err s1 w1 where g: "GetStats s w = Return ((st, err), s1, w1)"
      by (cases x) auto
    show ?thesis
    proof (cases err)
      case (Some e)
      with g show ?thesis by (simp add: first_writer_single)
    next
      case None
      with g Cons.IH [of "merge_missing merged st" w1] show ?thesis
        by (simp add: first_writer_merge split: outcome.splits)
    qed
  qed
qed

lemma first_writer_Some_iff:
  "first_writer sts key = Some v \<longleftrightarrow>
     (\<exists>j < length sts. (\<exists>m. sts ! j = Some m \<and> m key = Some v) \<and>
        (\<forall>i < j. \<forall>m. sts ! i = Some m \<longrightarrow> m key = None))"
proof (induction sts)
  case Nil
  then show ?case by simp
next
  case (Cons st sts)
  show ?case
  proof (cases st)
    case None
    then show ?thesis
      by (simp add: Cons.IH Ex_less_Suc2 All_less_Suc2)
  next
    case (Some m)
    then show ?thesis
      by (cases "m key") (auto simp: Cons.IH Ex_less_Suc2 All_less_Suc2)
  qed
qed

lemma StatsAll_GetStats_each:
  "StatsAll c w =
     (case GetStats_each (servers c) w of
        Panic \<Rightarrow> Panic
      | Return (sts, err, ss, w1) \<Rightarrow>
          Return ((first_writer sts, map_option (Join ErrWriteFailed) err),
                  c\<lparr>servers := ss\<rparr>, w1))"
  by (simp add: StatsAll_def StatsAll_loop_first_writer first_writer_empty
        split: outcome.splits)

text \<open>
  C9. Let \<open>sts\<close> be the reports of the servers, in the order of the list (up to a
  server that fails, if one does). The map that \<^verbatim>\<open>StatsAll\<close> returns gives a key the
  value \<open>v\<close> exactly when some report holds the key with \<open>v\<close> and no earlier report
  holds the key: the first server that reports a key decides its value, and what later
  servers report for it is dropped.
\<close>

theorem StatsAll_first_writer_wins:
  assumes "GetStats_each (servers c) w = Return (sts, err, ss, w1)"
  shows "\<exists>merged.
           StatsAll c w =
             Return ((merged, map_option (Join ErrWriteFailed) err), c\<lparr>servers := ss\<rparr>, w1) \<and>
           (\<forall>key v. merged key = Some v \<longleftrightarrow>
              (\<exists>j < length sts. (\<exists>m. sts ! j = Some m \<and> m key = Some v) \<and>
                 (\<forall>i < j. \<forall>m. sts ! i = Some m \<longrightarrow> m key = None)))"
proof (intro exI conjI allI)
  from assms show "StatsAll c w =
      Return ((first_writer sts, map_option (Join ErrWriteFailed) err), c\<lparr>servers := ss\<rparr>, w1)"
    by (simp add: StatsAll_GetStats_each)
  show "first_writer sts key = Some v \<longleftrightarrow>
          (\<exists>j < length sts. (\<exists>m. sts ! j = Some m \<and> m key = Some v) \<and>
             (\<forall>i < j. \<forall>m. sts ! i = Some m \<longrightarrow> m key = None))" for key v
    by (rule first_writer_Some_iff)
qed

lemma SplitN_3:
  "SplitN s sep 3 =
     (if sep \<in> set s
      then takeWhile (\<lambda>c. c \<noteq> sep) s #
           (if sep \<in> set (tl (dropWhile (\<lambda>c. c \<noteq> sep) s))
            then [takeWhile (\<lambda>c. c \<noteq> sep) (tl (dropWhile (\<lambda>c. c \<noteq> sep) s)),
                  tl (dropWhile (\<lambda>c. c \<noteq> sep) (tl (dropWhile (\<lambda>c. c \<noteq> sep) s)))]
            else [tl (dropWhile (\<lambda>c. c \<noteq> sep) s)])
      else [s])"
  by (simp add: numeral_3_eq_3)

theorem StatsAll_first_writer_wins_witness:
  "\<exists>merged.
     StatsAll \<lparr>servers = [cache0, cache1]\<rparr>
        \<lparr>dials = [], writes = [None, None],
         reads = [Inr (''STAT pid 1'' @ CRLF @ ''STAT uptime 10'' @ CRLF @ ''END'' @ CRLF),
                  Inr (''STAT pid 2'' @ CRLF @ ''STAT version 1.6'' @ CRLF @ ''END'' @ CRLF)],
         next_sock = 3, log = []\<rparr>
       = Return ((merged, None), \<lparr>servers = [cache0, cache1]\<rparr>,
           \<lparr>dials = [], writes = [], reads = [], next_sock = 3,
            log = [EvWrite 0 (''stats'' @ CRLF), EvRead 0 4096,
                   EvWrite 1 (''stats'' @ CRLF), EvRead 1 4096]\<rparr>) \<and>
     merged ''pid'' = Some ''1'' \<and> merged ''uptime'' = Some ''10'' \<and>
     merged ''version'' = Some ''1.6''"
proof -
  let ?c = "\<lparr>servers = [cache0, cache1]\<rparr>"
  let ?w = "\<lparr>dials = [], writes = [None, None],
             reads = [Inr (''STAT pid 1'' @ CRLF @ ''STAT uptime 10'' @ CRLF @ ''END'' @ CRLF),
                      Inr (''STAT pid 2'' @ CRLF @ ''STAT version 1.6'' @ CRLF @ ''END'' @ CRLF)],
             next_sock = 3, log = []\<rparr>"
  let ?w1 = "\<lparr>dials = [], writes = [], reads = [], next_sock = 3,
              log = [EvWrite 0 (''stats'' @ CRLF), EvRead 0 4096,
                     EvWrite 1 (''stats'' @ CRLF), EvRead 1 4096]\<rparr>"
  let ?m0 = "[''pid'' \<mapsto> ''1'', ''uptime'' \<mapsto> ''10'']"
  let ?m1 = "[''pid'' \<mapsto> ''2'', ''version'' \<mapsto> ''1.6'']"
  let ?sts = "[Some ?m0, Some ?m1]"
  have each: "GetStats_each (servers ?c) ?w = Return (?sts, None, [cache0, cache1], ?w1)"
    by (simp add: eval_defs GetStats_def SplitN_3 cache0_def cache1_def)
  from StatsAll_first_writer_wins [OF each] obtain merged where
    run: "StatsAll ?c ?w = Return ((merged, None), ?c, ?w1)" and
    first: "\<And>key v. merged key = Some v \<longleftrightarrow>
              (\<exists>j < length ?sts. (\<exists>m. ?sts ! j = Some m \<and> m key = Some v) \<and>
                 (\<forall>i < j. \<forall>m. ?sts ! i = Some m \<longrightarrow> m key = None))"
    by auto
  have "merged ''pid'' = Some ''1''"
    unfolding first by (rule exI [of _ 0]) simp
  moreover have "merged ''uptime'' = Some ''10''"
    unfolding first by (rule exI [of _ 0]) simp
  moreover have "merged ''version'' = Some ''1.6''"
    unfolding first by (rule exI [of _ 1]) simp
  ultimately show ?thesis using run by blast
qed

section \<open>An absent key\<close>

declare ReadString_loop.simps [simp del]

lemma sock_Read_chunk:
  "reads w = Inr ch # rs \<Longrightarrow>
   sock_Read s k w =
     ((take k ch, None),
      w\<lparr>log := log w @ [EvRead s k],
        reads := (if length ch \<le> k then rs else Inr (drop k ch) # rs)\<rparr>)"
  by (simp add: sock_Read_def Let_def)

lemma Conn_Read_chunk:
  "conn c = Some s \<Longrightarrow> reads w = Inr ch # rs \<Longrightarrow>
   Conn_Read c k w =
     Return ((take k ch, None), c,
      w\<lparr>log := log w @ [EvRead s k],
        reads := (if length ch \<le> k then rs else Inr (drop k ch) # rs)\<rparr>)"
  by (simp add: Conn_Read_def sock_Read_chunk)

lemma fill_chunk:
  assumes "conn c = Some s" and "reads w = Inr ch # rs" and "ch \<noteq> []"
    and "length (buf r) < defaultBufSize"
  shows "fill r c w =
     Return (r\<lparr>buf := buf r @ take (defaultBufSize - length (buf r)) ch\<rparr>, c,
      w\<lparr>log := log w @ [EvRead s (defaultBufSize - length (buf r))],
        reads := (if length ch \<le> defaultBufSize - length (buf r) then rs
                  else Inr (drop (defaultBufSize - length (buf r)) ch) # rs)\<rparr>)"
proof -
  from assms(3,4) have "take (defaultBufSize - length (buf r)) ch \<noteq> []" by simp
  with assms(1,2) show ?thesis
    by (simp add: fill_unfold Conn_Read_chunk del: take_eq_Nil)
qed

lemma prefix_before_delim:
  "b @ x = l @ d # tail \<Longrightarrow> d \<notin> set b \<Longrightarrow> \<exists>l'. l = b @ l'"
proof (induction b arbitrary: l)
  case Nil
  then show ?case by simp
next
  case (Cons a b)
  show ?case
  proof (cases l)
    case Nil
    with Cons.prems show ?thesis by simp
  next
    case (Cons y ys)
    with Cons.prems have "b @ x = ys @ d # tail" and "d \<notin> set b" and "y = a" by simp_all
    with Cons.IH [of ys] Cons show ?thesis by auto
  qed
qed

lemma takeWhile_before_delim:
  "d \<notin> set l \<Longrightarrow> takeWhile (\<lambda>x. x \<noteq> d) (l @ d # tail) = l"
  by (induction l) auto

text \<open>
  \<^verbatim>\<open>ReadString\<close> puts a line together from the pieces the socket delivers, wherever
  they are cut.
\<close>

lemma ReadString_loop_chunks:
  assumes "conn c = Some s" and "rerr r = None"
    and "reads w = map Inr cs @ rest" and "[] \<notin> set cs"
    and "buf r @ concat cs = l @ delim # tail" and "delim \<notin> set l"
  shows "\<exists>r1 w1. ReadString_loop delim acc r c w = Return ((acc @ l @ [delim], None), r1, c, w1)"
  using assms
proof (induction delim acc r c w arbitrary: cs l rule: ReadString_loop.induct)
  case (1 delim acc r c w)
  note unf = ReadString_loop.simps [of delim acc r c w]
  show ?case
  proof (cases "delim \<in> set (buf r)")
    case True
    then have "takeWhile (\<lambda>x. x \<noteq> delim) (buf r @ concat cs) = takeWhile (\<lambda>x. x \<noteq> delim) (buf r)"
      by (simp add: takeWhile_append1)
    moreover from "1.prems"(6) have "takeWhile (\<lambda>x. x \<noteq> delim) (l @ delim # tail) = l"
      by (rule takeWhile_before_delim)
    ultimately have tw: "takeWhile (\<lambda>x. x \<noteq> delim) (buf r) = l"
      using "1.prems"(5) by simp
    have "ReadString_loop delim acc r c w =
            Return ((acc @ l @ [delim], None),
                    r\<lparr>buf := tl (dropWhile (\<lambda>x. x \<noteq> delim) (buf r))\<rparr>, c, w)"
      by (simp add: unf True tw)
    then show ?thesis by blast
  next
    case False
    note nd = this
    from prefix_before_delim [OF "1.prems"(5) nd] obtain l' where l: "l = buf r @ l'" ..
    with "1.prems"(5) have rest: "concat cs = l' @ delim # tail" by simp
    show ?thesis
    proof (cases "defaultBufSize \<le> length (buf r)")
      case True
      from "1.prems"(6) l have "delim \<notin> set l'" by simp
      then have "\<exists>r1 w1. ReadString_loop delim (acc @ buf r) (r\<lparr>buf := []\<rparr>) c w
           = Return (((acc @ buf r) @ l' @ [delim], None), r1, c, w1)"
        using "1.prems"(1,2,3,4) rest
        by (intro "1.IH"(1) [OF nd "1.prems"(2) True, of cs l']) simp_all
      then obtain r1 w1 where
        "ReadString_loop delim (acc @ buf r) (r\<lparr>buf := []\<rparr>) c w
           = Return (((acc @ buf r) @ l' @ [delim], None), r1, c, w1)"
        by blast
      moreover have "ReadString_loop delim acc r c w
                       = ReadString_loop delim (acc @ buf r) (r\<lparr>buf := []\<rparr>) c w"
        by (simp add: unf nd "1.prems"(2) True)
      ultimately show ?thesis using l by simp
    next
      case False
      from rest obtain ch cs' where cs: "cs = ch # cs'" by (cases cs) auto
      with "1.prems"(4) have ch: "ch \<noteq> []" by auto
      let ?k = "defaultBufSize - length (buf r)"
      let ?r1 = "r\<lparr>buf := buf r @ take ?k ch\<rparr>"
      let ?w1 = "w\<lparr>log := log w @ [EvRead s ?k],
                   reads := (if length ch \<le> ?k then map Inr cs' @ rest
                             else Inr (drop ?k ch) # map Inr cs' @ rest)\<rparr>"
      let ?cs1 = "if length ch \<le> ?k then cs' else drop ?k ch # cs'"
      from "1.prems"(3) cs have rd: "reads w = Inr ch # (map Inr cs' @ rest)" by simp
      from False have lt: "length (buf r) < defaultBufSize" by simp
      from fill_chunk [OF "1.prems"(1) rd ch lt]
      have f: "fill r c w = Return (?r1, c, ?w1)" .
      have p2: "rerr ?r1 = None" using "1.prems"(2) by simp
      have p3: "reads ?w1 = map Inr ?cs1 @ rest" by simp
      have p4: "[] \<notin> set ?cs1" using "1.prems"(4) cs by auto
      have "take ?k ch @ concat ?cs1 = concat cs"
        using cs by simp
      with "1.prems"(5) have p5: "buf ?r1 @ concat ?cs1 = l @ delim # tail" by simp
      from "1.IH"(2) [OF nd "1.prems"(2) False f refl refl "1.prems"(1) p2 p3 p4 p5 "1.prems"(6)]
      obtain r1 w1 where
        "ReadString_loop delim acc ?r1 c ?w1 = Return ((acc @ l @ [delim], None), r1, c, w1)"
        by blast
      moreover have "ReadString_loop delim acc r c w = ReadString_loop delim acc ?r1 c ?w1"
        by (simp add: unf nd "1.prems"(2) False f)
      ultimately show ?thesis by simp
    qed
  qed
qed

lemma Conn_Write_ok:
  "conn c = Some s \<Longrightarrow> writes w = None # ws \<Longrightarrow>
   Conn_Write c b w = Return ((length b, None), c, w\<lparr>log := log w @ [EvWrite s b], writes := ws\<rparr>)"
  by (simp add: Conn_Write_def sock_Write_def Let_def)

lemma GetValue_END:
  assumes "conn (sconn s) = Some sock" and "writes w = None # ws"
    and "reads w = map Inr cs @ rest" and "[] \<notin> set cs"
    and "concat cs = l @ LF # tail" and "LF \<notin> set l"
    and "TrimSpace (l @ [LF]) = ''END''"
  shows "\<exists>s1 w1. GetValue s key withCAS w = Return (([], 0, Some ErrNotFound), s1, w1)"
proof -
  let ?cmd = "if withCAS then ''gets '' @ key @ CRLF else ''get '' @ key @ CRLF"
  let ?w0 = "w\<lparr>log := log w @ [EvWrite sock ?cmd], writes := ws\<rparr>"
  have wr: "Conn_Write (sconn s) ?cmd w = Return ((length ?cmd, None), sconn s, ?w0)"
    using assms(1,2) by (rule Conn_Write_ok)
  have "reads ?w0 = map Inr cs @ rest" using assms(3) by simp
  moreover have "buf NewReader @ concat cs = l @ LF # tail"
    using assms(5) by (simp add: NewReader_def)
  moreover have "rerr NewReader = None" by (simp add: NewReader_def)
  ultimately obtain r1 w1 where
    "ReadString_loop LF [] NewReader (sconn s) ?w0 = Return (([] @ l @ [LF], None), r1, sconn s, w1)"
    using ReadString_loop_chunks [OF assms(1) _ _ assms(4) _ assms(6), of NewReader ?w0 rest tail "[]"]
    by blast
  then have rd: "ReadString NewReader LF (sconn s) ?w0 = Return ((l @ [LF], None), r1, sconn s, w1)"
    by (simp add: ReadString_def)
  show ?thesis
    unfolding GetValue_def Let_def using wr rd assms(7) by simp
qed

text \<open>
  C6. The client has servers, the server picked for the key holds a socket, the write of
  the command succeeds, and the answer starts with a line that trims to \<open>END\<close>: the
  bytes \<open>l\<close>, free of line feeds, then a line feed, delivered by the socket in the pieces
  \<open>cs\<close>, however cut. Then \<^verbatim>\<open>Get\<close> returns the error \<open>ErrNotFound\<close> with the empty
  value: an absent key is never a success with a value of length zero.
\<close>

theorem Get_not_found:
  assumes "servers c \<noteq> []"
    and "conn (sconn (servers c ! (unat (ChecksumIEEE key) mod length (servers c)))) = Some sock"
    and "writes w = None # ws"
    and "reads w = map Inr cs @ rest" and "[] \<notin> set cs"
    and "concat cs = l @ LF # tail" and "LF \<notin> set l"
    and "TrimSpace (l @ [LF]) = ''END''"
  shows "\<exists>c1 w1. Client_Get c key w = Return (([], Some ErrNotFound), c1, w1)"
proof -
  let ?i = "unat (ChecksumIEEE key) mod length (servers c)"
  from GetValue_END [OF assms(2-8), of key False] obtain s1 w1 where
    "GetValue (servers c ! ?i) key False w = Return (([], 0, Some ErrNotFound), s1, w1)"
    by blast
  with assms(1) show ?thesis
    by (simp add: Client_Get_def pickServer_index)
qed

theorem Get_not_found_witness:
  "\<exists>c1 w1.
     Client_Get \<lparr>servers = [cache0]\<rparr> ''k''
       \<lparr>dials = [], writes = [None],
        reads = [Inr ''EN'', Inr (''D'' @ [CR]), Inr (LF # ''VALUE'')],
        next_sock = 1, log = []\<rparr>
     = Return (([], Some ErrNotFound), c1, w1)"
proof -
  let ?c = "\<lparr>servers = [cache0]\<rparr>"
  let ?w = "\<lparr>dials = [], writes = [None],
             reads = [Inr ''EN'', Inr (''D'' @ [CR]), Inr (LF # ''VALUE'')],
             next_sock = 1, log = []\<rparr>"
  let ?cs = "[''EN'', ''D'' @ [CR], LF # ''VALUE'']"
  have 1: "servers ?c \<noteq> []" by simp
  have 2: "conn (sconn (servers ?c ! (unat (ChecksumIEEE ''k'') mod length (servers ?c)))) = Some 0"
    by (simp add: cache0_def)
  have 3: "writes ?w = None # []" by simp
  have 4: "reads ?w = map Inr ?cs @ []" by simp
  have 5: "[] \<notin> set ?cs" by simp
  have 6: "concat ?cs = (''END'' @ [CR]) @ LF # ''VALUE''" by simp
  have 7: "LF \<notin> set (''END'' @ [CR])" by (simp add: LF_def CR_def)
  have 8: "TrimSpace ((''END'' @ [CR]) @ [LF]) = ''END''"
    by (simp add: TrimSpace_def TrimLeft_def TrimRight_def spaces_def is_prefix_def CR_def LF_def)
  from Get_not_found [OF 1 2 3 4 5 6 7 8] show ?thesis .
qed

end
